theory Spec2Isabelle
  imports Complex_Main "HOL-Library.Product_Lexorder"
begin

section \<open>Data model (src/types/domain.ts)\<close>

text \<open>
  The enums of the Prisma schema. \<open>Source.WALKIN\<close> and \<open>Source.ONLINE\<close> carry a prefix
  because the \<open>Priority\<close> enum has members of the same name.
\<close>

datatype Priority = EMERGENCY | PAID | FOLLOWUP | ONLINE | WALKIN

datatype Source = Source_WALKIN | Source_ONLINE

datatype TokenStatus = WAITING | ALLOCATED | COMPLETED | CANCELLED | NO_SHOW | EXPIRED

text \<open>
  A JavaScript \<open>Date\<close> is its number of milliseconds since the epoch. A slot time
  \<open>"HH:MM"\<close> is kept in the form \<open>split(":").map(Number)\<close> gives it: the pair
  (hours, minutes). For the two-digit strings the validation layer admits, the
  lexicographic order of the pairs is the order of the strings.
\<close>

type_synonym Date = int

type_synonym HHMM = "nat \<times> nat"

record Doctor =
  d_id :: string
  d_name :: string
  d_displayID :: string
  d_specialization :: "string option"
  d_isActive :: bool

record Slot =
  s_id :: string
  s_displayID :: string
  s_doctorId :: string
  s_date :: Date
  s_startTime :: HHMM
  s_endTime :: HHMM
  s_capacity :: int
  s_paidCap :: "int option"
  s_followUpCap :: "int option"
  s_isActive :: bool

record Token =
  t_id :: string
  t_displayID :: string
  t_patientName :: string
  t_patientPhone :: "string option"
  t_patientAge :: "int option"
  t_source :: Source
  t_priority :: Priority
  t_status :: TokenStatus
  t_slotId :: "string option"
  t_doctorId :: string
  t_date :: Date
  t_idempotencyKey :: string
  t_notes :: "string option"
  t_createdAt :: Date
  t_allocatedAt :: "Date option"
  t_completedAt :: "Date option"
  t_cancelledAt :: "Date option"

record CreateTokenInput =
  i_patientName :: string
  i_patientPhone :: "string option"
  i_patientAge :: "int option"
  i_doctorId :: string
  i_date :: string
  i_source :: Source
  i_priority :: Priority
  i_idempotencyKey :: string
  i_notes :: "string option"

datatype JsonValue = JString string | JNumber int | JBool bool
  | JPriority Priority | JSource Source

record AuditLog =
  a_operation :: string
  a_tokenId :: "string option"
  a_slotId :: "string option"
  a_doctorId :: "string option"
  a_details :: "(string \<times> JsonValue) list"
  a_timestamp :: Date

record AllocationResult =
  ar_success :: bool
  ar_token :: "Token option"
  ar_slot :: "Slot option"
  ar_message :: string

record ReallocationResult =
  rr_success :: bool
  rr_movedTokens :: "Token option list"
  rr_freedSlot :: "Slot option"
  rr_message :: string

text \<open>The codes of the errors the engine throws through \<open>createAppError\<close>.\<close>

datatype AppError = TOKEN_NOT_FOUND | INVALID_STATUS | DOCTOR_NOT_FOUND
  | ALREADY_CANCELLED | CANNOT_CANCEL_COMPLETED | UNIQUE_CONSTRAINT

text \<open>
  The store behind \<open>prisma\<close>: one list of rows per table, in table order.
\<close>

record Store =
  tokens :: "Token list"
  slots :: "Slot list"
  doctors :: "Doctor list"
  auditLog :: "AuditLog list"

section \<open>Pure helpers (src/utils/helper.ts)\<close>

fun getPriorityOrder :: "Priority \<Rightarrow> int" where
  "getPriorityOrder EMERGENCY = 1"
| "getPriorityOrder PAID = 2"
| "getPriorityOrder FOLLOWUP = 3"
| "getPriorityOrder ONLINE = 4"
| "getPriorityOrder WALKIN = 5"

definition comparePriority :: "Priority \<Rightarrow> Priority \<Rightarrow> int" where
  "comparePriority p1 p2 = getPriorityOrder p1 - getPriorityOrder p2"

text \<open>
  \<open>canAllocateToSlot\<close>, with the checks in the order of the source: the full-slot test
  comes first, the EMERGENCY test second.
\<close>

definition canAllocateToSlot ::
  "Priority \<Rightarrow> int \<Rightarrow> int \<Rightarrow> int \<Rightarrow> int \<Rightarrow> int option \<Rightarrow> int option \<Rightarrow> bool" where
  "canAllocateToSlot priority currentPaidCount currentFollowUpCount currentTotalCount
       capacity paidCap followUpCap =
     (if currentTotalCount \<ge> capacity then False
      else if priority = EMERGENCY then True
      else if priority = PAID \<and>
              (case paidCap of None \<Rightarrow> False | Some c \<Rightarrow> currentPaidCount \<ge> c) then False
      else if priority = FOLLOWUP \<and>
              (case followUpCap of None \<Rightarrow> False | Some c \<Rightarrow> currentFollowUpCount \<ge> c) then False
      else True)"

text \<open>
  \<open>findLowestPriorityToken\<close>: the loop runs over the whole list, the first element
  included, keeping the current candidate; \<open>lowestPriority\<close> is only reassigned together
  with the candidate on a strictly greater order value.
\<close>

fun lowestLoop :: "Token \<Rightarrow> int \<Rightarrow> Token list \<Rightarrow> Token" where
  "lowestLoop lowestToken lowestPriority [] = lowestToken"
| "lowestLoop lowestToken lowestPriority (token # rest) =
     (if getPriorityOrder (t_priority token) > lowestPriority
        then lowestLoop token (getPriorityOrder (t_priority token)) rest
      else if getPriorityOrder (t_priority token) = lowestPriority
        then (if t_createdAt token < t_createdAt lowestToken
                then lowestLoop token lowestPriority rest
              else lowestLoop lowestToken lowestPriority rest)
      else lowestLoop lowestToken lowestPriority rest)"

definition findLowestPriorityToken :: "Token list \<Rightarrow> string option" where
  "findLowestPriorityToken toks =
     (case toks of
        [] \<Rightarrow> None
      | t0 # _ \<Rightarrow> Some (t_id (lowestLoop t0 (getPriorityOrder (t_priority t0)) toks)))"

text \<open>The table of \<open>isValidStatusTransition\<close>.\<close>

fun validTransitions :: "TokenStatus \<Rightarrow> TokenStatus list" where
  "validTransitions WAITING = [ALLOCATED, CANCELLED, EXPIRED]"
| "validTransitions ALLOCATED = [COMPLETED, NO_SHOW, CANCELLED, WAITING]"
| "validTransitions COMPLETED = []"
| "validTransitions CANCELLED = []"
| "validTransitions NO_SHOW = []"
| "validTransitions EXPIRED = []"

definition isValidStatusTransition :: "TokenStatus \<Rightarrow> TokenStatus \<Rightarrow> bool" where
  "isValidStatusTransition from to = (to \<in> set (validTransitions from))"

text \<open>
  The clock. \<open>now\<close> is the value of \<open>new Date()\<close>, held fixed for the length of one
  operation. \<open>setHours\<close> is \<open>d.setHours(h, m, 0, 0)\<close> on a date \<open>d\<close> that is a local
  midnight (what \<open>parseDate\<close> produces), on a day without a change of the zone offset.
\<close>

definition setHours :: "Date \<Rightarrow> HHMM \<Rightarrow> Date" where
  "setHours d hm = d + int (fst hm) * 3600000 + int (snd hm) * 60000"

definition hasSlotEnded :: "Date \<Rightarrow> HHMM \<Rightarrow> Date \<Rightarrow> bool" where
  "hasSlotEnded now slotEndTime slotDate = (now \<ge> setHours slotDate slotEndTime)"

definition isSlotAvailable :: "Date \<Rightarrow> HHMM \<Rightarrow> Date \<Rightarrow> bool" where
  "isSlotAvailable now slotEndTime slotDate = (\<not> hasSlotEnded now slotEndTime slotDate)"

definition shouldPrioritizeWalkIn :: "Date \<Rightarrow> HHMM \<Rightarrow> HHMM \<Rightarrow> Date \<Rightarrow> bool" where
  "shouldPrioritizeWalkIn now slotStartTime slotEndTime slotDate =
     (if hasSlotEnded now slotEndTime slotDate then False
      else (of_int (setHours slotDate slotStartTime - now) :: rat) / (1000 * 60 * 60) \<le> 1)"

text \<open>\<open>num.toString()\<close> for a count, as the result messages print it.\<close>

fun showNat :: "nat \<Rightarrow> string" where
  "showNat n =
     (if n < 10 then [char_of (48 + n)]
      else showNat (n div 10) @ [char_of (48 + n mod 10)])"

declare showNat.simps [simp del]

section \<open>The store (the Prisma calls the engine makes)\<close>

text \<open>\<open>token.findUnique({ where: { id } })\<close>.\<close>

definition findToken :: "Store \<Rightarrow> string \<Rightarrow> Token option" where
  "findToken st tokenId = find (\<lambda>t. t_id t = tokenId) (tokens st)"

text \<open>\<open>token.findUnique({ where: { idempotencyKey } })\<close>.\<close>

definition findTokenByKey :: "Store \<Rightarrow> string \<Rightarrow> Token option" where
  "findTokenByKey st k = find (\<lambda>t. t_idempotencyKey t = k) (tokens st)"

text \<open>\<open>include: { slot: true }\<close>: the row the token's \<open>slotId\<close> refers to.\<close>

definition slotOf :: "Store \<Rightarrow> Token \<Rightarrow> Slot option" where
  "slotOf st t =
     (case t_slotId t of
        None \<Rightarrow> None
      | Some sid \<Rightarrow> find (\<lambda>sl. s_id sl = sid) (slots st))"

text \<open>\<open>token.update({ where: { id }, data })\<close>.\<close>

definition updateToken :: "Store \<Rightarrow> string \<Rightarrow> (Token \<Rightarrow> Token) \<Rightarrow> Store" where
  "updateToken st tokenId f =
     st\<lparr>tokens := map (\<lambda>t. if t_id t = tokenId then f t else t) (tokens st)\<rparr>"

text \<open>\<open>auditLog.create({ data })\<close>.\<close>

definition addAudit :: "Store \<Rightarrow> AuditLog \<Rightarrow> Store" where
  "addAudit st entry = st\<lparr>auditLog := auditLog st @ [entry]\<rparr>"

text \<open>
  \<open>include: { tokens: { where: { status: ALLOCATED } } }\<close>: the ALLOCATED tokens whose
  \<open>slotId\<close> is the slot's id.
\<close>

definition allocatedTokensOf :: "Store \<Rightarrow> string \<Rightarrow> Token list" where
  "allocatedTokensOf st sid =
     filter (\<lambda>t. t_slotId t = Some sid \<and> t_status t = ALLOCATED) (tokens st)"

text \<open>
  The \<open>slot.findMany\<close> of \<open>allocateToken\<close>: doctor, date, active; ordered by
  \<open>startTime\<close> ascending (rows of equal start time stay in table order), each slot with
  its ALLOCATED tokens.
\<close>

definition findSlotsFor :: "Store \<Rightarrow> Token \<Rightarrow> (Slot \<times> Token list) list" where
  "findSlotsFor st token =
     map (\<lambda>sl. (sl, allocatedTokensOf st (s_id sl)))
       (sort_key s_startTime
          (filter (\<lambda>sl. s_doctorId sl = t_doctorId token \<and> s_date sl = t_date token
                         \<and> s_isActive sl) (slots st)))"

definition availableSlots :: "Date \<Rightarrow> Store \<Rightarrow> Token \<Rightarrow> (Slot \<times> Token list) list" where
  "availableSlots now st token =
     filter (\<lambda>p. \<not> hasSlotEnded now (s_endTime (fst p)) (s_date (fst p)))
       (findSlotsFor st token)"

section \<open>The engine (src/utils/allocationEngine.ts)\<close>

definition paidCountOf :: "Token list \<Rightarrow> int" where
  "paidCountOf toks = int (length (filter (\<lambda>t. t_priority t = PAID) toks))"

definition followUpCountOf :: "Token list \<Rightarrow> int" where
  "followUpCountOf toks = int (length (filter (\<lambda>t. t_priority t = FOLLOWUP) toks))"

definition canAllocateHere :: "Token \<Rightarrow> Slot \<Rightarrow> Token list \<Rightarrow> bool" where
  "canAllocateHere token slot allocatedTokens =
     canAllocateToSlot (t_priority token) (paidCountOf allocatedTokens)
       (followUpCountOf allocatedTokens) (int (length allocatedTokens))
       (s_capacity slot) (s_paidCap slot) (s_followUpCap slot)"

text \<open>The two \<open>data\<close> objects \<open>allocateToken\<close> writes.\<close>

definition assignData :: "Date \<Rightarrow> Slot \<Rightarrow> Token \<Rightarrow> Token" where
  "assignData now slot t =
     t\<lparr>t_status := ALLOCATED, t_slotId := Some (s_id slot), t_allocatedAt := Some now\<rparr>"

definition displaceData :: "Token \<Rightarrow> Token" where
  "displaceData t = t\<lparr>t_status := WAITING, t_slotId := None, t_allocatedAt := None\<rparr>"

text \<open>
  \<open>allocateToken\<close> and its loop over the available slots. The loop works on the slots
  and token lists loaded before it starts. In the displacement branch the function calls
  itself on the displaced token; \<open>!displacedTokenId\<close> holds for \<open>null\<close> and for the
  empty string.
\<close>

function allocateToken :: "Date \<Rightarrow> Store \<Rightarrow> string \<Rightarrow> AppError + (Store \<times> AllocationResult)"
  and allocateLoop ::
    "Date \<Rightarrow> Store \<Rightarrow> Token \<Rightarrow> (Slot \<times> Token list) list
       \<Rightarrow> AppError + (Store \<times> AllocationResult)"
where
  "allocateToken now st tokenId =
     (case findToken st tokenId of
        None \<Rightarrow> Inl TOKEN_NOT_FOUND
      | Some token \<Rightarrow>
          if t_status token \<noteq> WAITING then Inl INVALID_STATUS
          else if availableSlots now st token = [] then
            Inr (st, \<lparr>ar_success = False, ar_token = Some token, ar_slot = None,
                      ar_message = ''No available slots''\<rparr>)
          else allocateLoop now st token (availableSlots now st token))"
| "allocateLoop now st token [] =
     Inr (st, \<lparr>ar_success = False, ar_token = Some token, ar_slot = None,
               ar_message = ''All slots are full or capacity limits reached''\<rparr>)"
| "allocateLoop now st token (p # rest) =
     (if canAllocateHere token (fst p) (snd p) then
        (if int (length (snd p)) < s_capacity (fst p) then
           Inr (updateToken st (t_id token) (assignData now (fst p)),
                \<lparr>ar_success = True,
                 ar_token = findToken (updateToken st (t_id token) (assignData now (fst p)))
                              (t_id token),
                 ar_slot = Some (fst p),
                 ar_message = ''Token allocated successfully''\<rparr>)
         else if t_priority token = EMERGENCY \<and> int (length (snd p)) \<ge> s_capacity (fst p) then
           (case findLowestPriorityToken (snd p) of
              None \<Rightarrow> allocateLoop now st token rest
            | Some displacedTokenId \<Rightarrow>
                if displacedTokenId = [] then allocateLoop now st token rest
                else
                  (case allocateToken now
                          (updateToken (updateToken st displacedTokenId displaceData)
                             (t_id token) (assignData now (fst p)))
                          displacedTokenId of
                     Inl e \<Rightarrow> Inl e
                   | Inr r \<Rightarrow>
                       Inr (addAudit (fst r)
                              \<lparr>a_operation = ''EMERGENCY_DISPLACEMENT'',
                               a_tokenId = Some (t_id token),
                               a_slotId = Some (s_id (fst p)),
                               a_doctorId = Some (t_doctorId token),
                               a_details = [(''displacedTokenId'', JString displacedTokenId)],
                               a_timestamp = now\<rparr>,
                            \<lparr>ar_success = True,
                             ar_token = findToken (fst r) (t_id token),
                             ar_slot = Some (fst p),
                             ar_message =
                               ''Emergency token allocated, displaced lower priority token''\<rparr>)))
         else allocateLoop now st token rest)
      else allocateLoop now st token rest)"
  by pat_completeness auto

text \<open>
  Termination: the loop's calls of itself shorten the list of slots. Its call of
  \<open>allocateToken\<close> stands under \<open>canAllocate\<close> and \<open>currentTotalCount >= slot.capacity\<close>
  together, which \<open>canAllocateToSlot\<close> never gives, its first test being the full slot.
\<close>

termination
proof (relation "measure (\<lambda>x. case x of
          Inl (now, st, tokenId) \<Rightarrow>
            (case findToken st tokenId of
               None \<Rightarrow> 0
             | Some token \<Rightarrow> Suc (length (availableSlots now st token)))
        | Inr (now, st, token, sl) \<Rightarrow> length sl)", goal_cases)
  case 1
  show ?case by simp
next
  case (2 now st tokenId token)
  then show ?case by simp
next
  case (3 now st token p rest)
  show ?case by simp
next
  case (4 now st token p rest x2)
  show ?case by simp
next
  case (5 now st token p rest x2)
  then show ?case
    by (simp add: canAllocateHere_def canAllocateToSlot_def split: if_splits)
next
  case (6 now st token p rest)
  show ?case by simp
next
  case (7 now st token p rest)
  show ?case by simp
qed

text \<open>
  Modelled from the spec: the order the database gives the \<open>Priority\<close> enum in
  \<open>orderBy: [{ priority: "asc" }, { createdAt: "asc" }]\<close>. The Prisma schema that
  declares the enum is not among the sources; spec section 4.1 gives the total order
  EMERGENCY < PAID < FOLLOWUP < ONLINE < WALKIN, the one of \<open>getPriorityOrder\<close>.
\<close>

definition waitingOrderKey :: "Token \<Rightarrow> int \<times> Date" where
  "waitingOrderKey t = (getPriorityOrder (t_priority t), t_createdAt t)"

text \<open>
  The \<open>token.findMany\<close> of the reallocation: the WAITING tokens of a doctor and date,
  with the \<open>source\<close> condition when the where clause carries one, in the order above
  (rows of equal key stay in table order).
\<close>

definition findWaiting :: "Store \<Rightarrow> string \<Rightarrow> Date \<Rightarrow> Source option \<Rightarrow> Token list" where
  "findWaiting st doctorId date src =
     sort_key waitingOrderKey
       (filter (\<lambda>t. t_doctorId t = doctorId \<and> t_date t = date \<and> t_status t = WAITING
                     \<and> (case src of None \<Rightarrow> True | Some x \<Rightarrow> t_source t = x))
          (tokens st))"

text \<open>
  The block \<open>cancelToken\<close> and \<open>markNoShow\<close> share word for word: the where clause
  built from \<open>shouldPrioritizeWalkIn\<close>, the query, and the fallback query.
\<close>

definition waitingCandidates :: "Date \<Rightarrow> Store \<Rightarrow> Token \<Rightarrow> Slot \<Rightarrow> Token list" where
  "waitingCandidates now st token slot =
     (if findWaiting st (t_doctorId token) (t_date token)
           (if shouldPrioritizeWalkIn now (s_startTime slot) (s_endTime slot) (s_date slot)
              then Some Source_WALKIN else None) = []
         \<and> shouldPrioritizeWalkIn now (s_startTime slot) (s_endTime slot) (s_date slot)
      then findWaiting st (t_doctorId token) (t_date token) None
      else findWaiting st (t_doctorId token) (t_date token)
             (if shouldPrioritizeWalkIn now (s_startTime slot) (s_endTime slot) (s_date slot)
                then Some Source_WALKIN else None))"

text \<open>The loop \<open>for (const waitingToken of waitingTokens)\<close> with its \<open>movedTokens\<close>.\<close>

fun promoteLoop ::
  "Date \<Rightarrow> Store \<Rightarrow> Token list \<Rightarrow> Token option list
     \<Rightarrow> AppError + (Store \<times> Token option list)" where
  "promoteLoop now st [] movedTokens = Inr (st, movedTokens)"
| "promoteLoop now st (waitingToken # rest) movedTokens =
     (case allocateToken now st (t_id waitingToken) of
        Inl e \<Rightarrow> Inl e
      | Inr r \<Rightarrow>
          promoteLoop now (fst r) rest
            (if ar_success (snd r) then movedTokens @ [ar_token (snd r)] else movedTokens))"

text \<open>JavaScript truthiness of a \<open>string | null\<close>: neither \<open>null\<close> nor empty.\<close>

definition truthy :: "string option \<Rightarrow> bool" where
  "truthy x = (case x of None \<Rightarrow> False | Some v \<Rightarrow> v \<noteq> [])"

text \<open>
  \<open>createToken\<close>. \<open>parseDate\<close> (a call of the JavaScript \<open>Date\<close> constructor) is a
  parameter. So are the two values that come from outside the engine: \<open>newId\<close>, the
  primary key the store gives the new row (the insert fails when the key is taken), and
  \<open>displayID\<close>, the name \<open>generateTokenDisplayID\<close> returns. \<open>createdAt\<close> is the
  store's default, the time of the insert. An \<open>Inl\<close> is a throw: the transaction
  rolls back.
\<close>

definition newTokenRow ::
  "(string \<Rightarrow> Date) \<Rightarrow> Date \<Rightarrow> CreateTokenInput \<Rightarrow> string \<Rightarrow> string \<Rightarrow> Token" where
  "newTokenRow parseDate now input newId displayID =
     \<lparr>t_id = newId, t_displayID = displayID,
      t_patientName = i_patientName input, t_patientPhone = i_patientPhone input,
      t_patientAge = i_patientAge input, t_source = i_source input,
      t_priority = i_priority input, t_status = WAITING, t_slotId = None,
      t_doctorId = i_doctorId input, t_date = parseDate (i_date input),
      t_idempotencyKey = i_idempotencyKey input, t_notes = i_notes input,
      t_createdAt = now, t_allocatedAt = None, t_completedAt = None,
      t_cancelledAt = None\<rparr>"

definition createToken ::
  "(string \<Rightarrow> Date) \<Rightarrow> Date \<Rightarrow> Store \<Rightarrow> CreateTokenInput \<Rightarrow> string \<Rightarrow> string
     \<Rightarrow> AppError + (Store \<times> AllocationResult)" where
  "createToken parseDate now st input newId displayID =
     (case findTokenByKey st (i_idempotencyKey input) of
        Some existingToken \<Rightarrow>
          Inr (st, \<lparr>ar_success = True, ar_token = Some existingToken,
                    ar_slot = slotOf st existingToken,
                    ar_message = ''Token already exists (idempotent request)''\<rparr>)
      | None \<Rightarrow>
          if find (\<lambda>d. d_id d = i_doctorId input \<and> d_isActive d) (doctors st) = None
            then Inl DOCTOR_NOT_FOUND
          else if findToken st newId \<noteq> None then Inl UNIQUE_CONSTRAINT
          else
            (case allocateToken now
                    (st\<lparr>tokens := tokens st @ [newTokenRow parseDate now input newId displayID]\<rparr>)
                    newId of
               Inl e \<Rightarrow> Inl e
             | Inr r \<Rightarrow>
                 Inr (addAudit (fst r)
                        \<lparr>a_operation = ''CREATE_TOKEN'', a_tokenId = Some newId,
                         a_slotId = None, a_doctorId = Some (i_doctorId input),
                         a_details = [(''priority'', JPriority (i_priority input)),
                                      (''source'', JSource (i_source input)),
                                      (''allocated'', JBool (ar_success (snd r)))],
                         a_timestamp = now\<rparr>,
                      snd r)))"

text \<open>
  The part of \<open>cancelToken\<close> and \<open>markNoShow\<close> that runs once the token is written and
  had a slot: the ended-slot return, or the reallocation and the closing audit row.
  \<open>opName\<close> is the audit operation, \<open>endedMsg\<close> and \<open>doneMsg\<close> the two message texts
  around the count.
\<close>

definition refill ::
  "Date \<Rightarrow> Store \<Rightarrow> Token \<Rightarrow> Slot \<Rightarrow> string \<Rightarrow> string \<Rightarrow> string
     \<Rightarrow> AppError + (Store \<times> ReallocationResult)" where
  "refill now st token slot opName endedMsg doneMsg =
     (if hasSlotEnded now (s_endTime slot) (s_date slot) then
        Inr (addAudit st
               \<lparr>a_operation = opName, a_tokenId = Some (t_id token),
                a_slotId = t_slotId token, a_doctorId = Some (t_doctorId token),
                a_details = [(''movedTokensCount'', JNumber 0),
                             (''reason'', JString ''Slot already ended'')],
                a_timestamp = now\<rparr>,
             \<lparr>rr_success = True, rr_movedTokens = [], rr_freedSlot = Some slot,
              rr_message = endedMsg\<rparr>)
      else
        (case promoteLoop now st (waitingCandidates now st token slot) [] of
           Inl e \<Rightarrow> Inl e
         | Inr r \<Rightarrow>
             Inr (addAudit (fst r)
                    \<lparr>a_operation = opName, a_tokenId = Some (t_id token),
                     a_slotId = t_slotId token, a_doctorId = Some (t_doctorId token),
                     a_details = [(''movedTokensCount'', JNumber (int (length (snd r))))],
                     a_timestamp = now\<rparr>,
                  \<lparr>rr_success = True, rr_movedTokens = snd r, rr_freedSlot = Some slot,
                   rr_message = doneMsg @ showNat (length (snd r))
                                  @ '' waiting tokens were reallocated.''\<rparr>)))"

text \<open>The closing audit row and result when no reallocation ran.\<close>

definition noRefill ::
  "Date \<Rightarrow> Store \<Rightarrow> Token \<Rightarrow> Slot option \<Rightarrow> string \<Rightarrow> string \<Rightarrow> Store \<times> ReallocationResult" where
  "noRefill now st token slot opName doneMsg =
     (addAudit st
        \<lparr>a_operation = opName, a_tokenId = Some (t_id token),
         a_slotId = t_slotId token, a_doctorId = Some (t_doctorId token),
         a_details = [(''movedTokensCount'', JNumber 0)],
         a_timestamp = now\<rparr>,
      \<lparr>rr_success = True, rr_movedTokens = [], rr_freedSlot = slot,
       rr_message = doneMsg @ showNat 0 @ '' waiting tokens were reallocated.''\<rparr>)"

definition cancelData :: "Date \<Rightarrow> Token \<Rightarrow> Token" where
  "cancelData now t = t\<lparr>t_status := CANCELLED, t_slotId := None, t_cancelledAt := Some now\<rparr>"

definition cancelToken ::
  "Date \<Rightarrow> Store \<Rightarrow> string \<Rightarrow> AppError + (Store \<times> ReallocationResult)" where
  "cancelToken now st tokenId =
     (case findToken st tokenId of
        None \<Rightarrow> Inl TOKEN_NOT_FOUND
      | Some token \<Rightarrow>
          if t_status token = CANCELLED then Inl ALREADY_CANCELLED
          else if t_status token = COMPLETED then Inl CANNOT_CANCEL_COMPLETED
          else
            (case (if truthy (t_slotId token) then slotOf st token else None) of
               Some slot \<Rightarrow>
                 refill now (updateToken st tokenId (cancelData now)) token slot
                   ''CANCEL_TOKEN''
                   ''Token cancelled (slot already ended, no reallocation)''
                   ''Token cancelled. ''
             | None \<Rightarrow>
                 Inr (noRefill now (updateToken st tokenId (cancelData now)) token
                        (slotOf st token) ''CANCEL_TOKEN'' ''Token cancelled. '')))"

definition noShowData :: "Token \<Rightarrow> Token" where
  "noShowData t = t\<lparr>t_status := NO_SHOW, t_slotId := None\<rparr>"

definition markNoShow ::
  "Date \<Rightarrow> Store \<Rightarrow> string \<Rightarrow> AppError + (Store \<times> ReallocationResult)" where
  "markNoShow now st tokenId =
     (case findToken st tokenId of
        None \<Rightarrow> Inl TOKEN_NOT_FOUND
      | Some token \<Rightarrow>
          if t_status token \<noteq> ALLOCATED then Inl INVALID_STATUS
          else
            (case slotOf st token of
               Some slot \<Rightarrow>
                 refill now (updateToken st tokenId noShowData) token slot
                   ''NO_SHOW''
                   ''Token marked as no-show (slot already ended, no reallocation)''
                   ''Token marked as no-show. ''
             | None \<Rightarrow>
                 Inr (noRefill now (updateToken st tokenId noShowData) token None
                        ''NO_SHOW'' ''Token marked as no-show. '')))"

definition completeData :: "Date \<Rightarrow> Token \<Rightarrow> Token" where
  "completeData now t = t\<lparr>t_status := COMPLETED, t_completedAt := Some now\<rparr>"

definition completeToken :: "Date \<Rightarrow> Store \<Rightarrow> string \<Rightarrow> AppError + Store" where
  "completeToken now st tokenId =
     (case findToken st tokenId of
        None \<Rightarrow> Inl TOKEN_NOT_FOUND
      | Some token \<Rightarrow>
          if t_status token \<noteq> ALLOCATED then Inl INVALID_STATUS
          else
            Inr (addAudit (updateToken st tokenId (completeData now))
                   \<lparr>a_operation = ''COMPLETE_TOKEN'', a_tokenId = Some tokenId,
                    a_slotId = t_slotId token, a_doctorId = Some (t_doctorId token),
                    a_details = [], a_timestamp = now\<rparr>))"

text \<open>
  \<open>expireWaitingTokens\<close>: one \<open>updateMany\<close> that writes \<open>status\<close> only, its row count,
  and the audit row.
\<close>

definition expires :: "string \<Rightarrow> Date \<Rightarrow> Token \<Rightarrow> bool" where
  "expires doctorId date t =
     (t_doctorId t = doctorId \<and> t_date t = date \<and> t_status t = WAITING)"

definition expireWaitingTokens ::
  "(string \<Rightarrow> Date) \<Rightarrow> Date \<Rightarrow> Store \<Rightarrow> string \<Rightarrow> string \<Rightarrow> Store \<times> nat" where
  "expireWaitingTokens parseDate now st doctorId date =
     (addAudit
        (st\<lparr>tokens := map (\<lambda>t. if expires doctorId (parseDate date) t
                                 then t\<lparr>t_status := EXPIRED\<rparr> else t) (tokens st)\<rparr>)
        \<lparr>a_operation = ''EXPIRE_TOKENS'', a_tokenId = None, a_slotId = None,
         a_doctorId = Some doctorId,
         a_details = [(''date'', JString date),
                      (''expiredCount'',
                       JNumber (int (length (filter (expires doctorId (parseDate date))
                                               (tokens st)))))],
         a_timestamp = now\<rparr>,
      length (filter (expires doctorId (parseDate date)) (tokens st)))"

text \<open>
  The five operations and their commit: the store after the operation, which is the
  store before it when the operation throws.
\<close>

datatype Operation =
    CreateToken CreateTokenInput string string
  | CancelToken string
  | MarkNoShow string
  | CompleteToken string
  | ExpireWaiting string string

definition stateAfter :: "Store \<Rightarrow> AppError + (Store \<times> 'r) \<Rightarrow> Store" where
  "stateAfter st res = (case res of Inl e \<Rightarrow> st | Inr r \<Rightarrow> fst r)"

fun commit :: "(string \<Rightarrow> Date) \<Rightarrow> Date \<Rightarrow> Store \<Rightarrow> Operation \<Rightarrow> Store" where
  "commit parseDate now st (CreateToken input newId displayID) =
     stateAfter st (createToken parseDate now st input newId displayID)"
| "commit parseDate now st (CancelToken tokenId) = stateAfter st (cancelToken now st tokenId)"
| "commit parseDate now st (MarkNoShow tokenId) = stateAfter st (markNoShow now st tokenId)"
| "commit parseDate now st (CompleteToken tokenId) =
     (case completeToken now st tokenId of Inl e \<Rightarrow> st | Inr st' \<Rightarrow> st')"
| "commit parseDate now st (ExpireWaiting doctorId date) =
     fst (expireWaitingTokens parseDate now st doctorId date)"

section \<open>Concrete stores for the scenarios\<close>

text \<open>
  One active doctor \<open>d1\<close>; the date is day 0, so 09:00 is 32400000 and 10:00 is
  36000000 milliseconds.
\<close>

definition fx_doctor :: Doctor where
  "fx_doctor = \<lparr>d_id = ''d1'', d_name = ''A'', d_displayID = ''AAA001'',
                 d_specialization = None, d_isActive = True\<rparr>"

definition fx_slot :: "string \<Rightarrow> HHMM \<Rightarrow> HHMM \<Rightarrow> int \<Rightarrow> Slot" where
  "fx_slot sid start end cap =
     \<lparr>s_id = sid, s_displayID = sid, s_doctorId = ''d1'', s_date = 0,
      s_startTime = start, s_endTime = end, s_capacity = cap, s_paidCap = None,
      s_followUpCap = None, s_isActive = True\<rparr>"

definition fx_token ::
  "string \<Rightarrow> Priority \<Rightarrow> Source \<Rightarrow> TokenStatus \<Rightarrow> string option \<Rightarrow> Date \<Rightarrow> Token" where
  "fx_token tid p src status sid created =
     \<lparr>t_id = tid, t_displayID = tid, t_patientName = ''p'', t_patientPhone = None,
      t_patientAge = None, t_source = src, t_priority = p, t_status = status,
      t_slotId = sid, t_doctorId = ''d1'', t_date = 0, t_idempotencyKey = tid,
      t_notes = None, t_createdAt = created, t_allocatedAt = None,
      t_completedAt = None, t_cancelledAt = None\<rparr>"

definition fx_store :: "Token list \<Rightarrow> Slot list \<Rightarrow> Store" where
  "fx_store toks sls = \<lparr>tokens = toks, slots = sls, doctors = [fx_doctor], auditLog = []\<rparr>"

definition fx_input :: "string \<Rightarrow> Priority \<Rightarrow> Source \<Rightarrow> string \<Rightarrow> CreateTokenInput" where
  "fx_input key p src name =
     \<lparr>i_patientName = name, i_patientPhone = None, i_patientAge = None,
      i_doctorId = ''d1'', i_date = ''01-01-1970'', i_source = src, i_priority = p,
      i_idempotencyKey = key, i_notes = None\<rparr>"

text \<open>
  Scenario S1 of the spec: slot \<open>S\<close> (09:00 to 10:00, capacity 2) holds \<open>t1\<close> (WALKIN) and
  \<open>t2\<close> (ONLINE).
\<close>

definition S1_store :: Store where
  "S1_store =
     fx_store [fx_token ''t1'' WALKIN Source_WALKIN ALLOCATED (Some ''S'') 1,
               fx_token ''t2'' ONLINE Source_ONLINE ALLOCATED (Some ''S'') 2]
              [fx_slot ''S'' (9, 0) (10, 0) 2]"


text \<open>
  A run from a store with one slot of one seat: two creations and the cancellation of
  the seated token.
\<close>

definition run_store :: Store where
  "run_store = fx_store [] [fx_slot ''S'' (9, 0) (10, 0) 1]"

definition run_ops :: "(Date \<times> Operation) list" where
  "run_ops =
     [(30000000, CreateToken (fx_input ''k1'' WALKIN Source_WALKIN ''a'') ''t1'' ''T-1''),
      (30000001, CreateToken (fx_input ''k2'' ONLINE Source_ONLINE ''b'') ''t2'' ''T-2''),
      (30000002, CancelToken ''t1'')]"

text \<open>A store with a NO_SHOW and an EXPIRED token.\<close>

definition terminal_store :: Store where
  "terminal_store =
     fx_store [fx_token ''t1'' WALKIN Source_WALKIN NO_SHOW None 1,
               fx_token ''t2'' ONLINE Source_ONLINE EXPIRED None 2]
              [fx_slot ''S'' (9, 0) (10, 0) 2]"

text \<open>
  A store for the end of the day: of the three WAITING tokens, one is of doctor \<open>d1\<close> on
  day 0, one of another doctor, one of another date.
\<close>

definition expire_store :: Store where
  "expire_store =
     fx_store [fx_token ''t1'' WALKIN Source_WALKIN WAITING None 1,
               fx_token ''t2'' ONLINE Source_ONLINE ALLOCATED (Some ''S'') 2,
               (fx_token ''t3'' ONLINE Source_ONLINE WAITING None 3)\<lparr>t_doctorId := ''d2''\<rparr>,
               (fx_token ''t4'' ONLINE Source_ONLINE WAITING None 4)\<lparr>t_date := 86400000\<rparr>,
               fx_token ''t5'' PAID Source_ONLINE CANCELLED None 5]
              [fx_slot ''S'' (9, 0) (10, 0) 2]"




text \<open>
  Scenario S3 of the spec: slot \<open>S\<close> (10:00 to 11:00, capacity 2) holds \<open>paid1\<close> and
  \<open>online1\<close>; \<open>online2\<close> waits, and so does \<open>walkin1\<close>, created later.
\<close>

definition S3_store :: Store where
  "S3_store =
     fx_store [fx_token ''paid1'' PAID Source_ONLINE ALLOCATED (Some ''S'') 1,
               fx_token ''online1'' ONLINE Source_ONLINE ALLOCATED (Some ''S'') 2,
               fx_token ''online2'' ONLINE Source_ONLINE WAITING None 3,
               fx_token ''walkin1'' WALKIN Source_WALKIN WAITING None 4]
              [fx_slot ''S'' (10, 0) (11, 0) 2]"

section \<open>The procedures in the words of the spec\<close>






text \<open>
  Spec section 4.5, steps 2 to 4: the WAITING tokens of a doctor and date, the order by
  priority then \<open>createdAt\<close>, the imminent slot (start at most one hour away, or past),
  and the candidate list with its walk-in preference and fallback.
\<close>

definition waitingOf :: "Store \<Rightarrow> string \<Rightarrow> Date \<Rightarrow> Token list" where
  "waitingOf st doctorId date =
     filter (\<lambda>t. t_status t = WAITING \<and> t_doctorId t = doctorId \<and> t_date t = date) (tokens st)"

definition byPriorityThenCreatedAt :: "Token list \<Rightarrow> Token list" where
  "byPriorityThenCreatedAt ts = sort_key (\<lambda>t. (getPriorityOrder (t_priority t), t_createdAt t)) ts"

definition imminent :: "Date \<Rightarrow> Slot \<Rightarrow> bool" where
  "imminent now slot = (setHours (s_date slot) (s_startTime slot) - now \<le> 3600000)"

definition backfillCandidates :: "Date \<Rightarrow> Store \<Rightarrow> string \<Rightarrow> Date \<Rightarrow> Slot \<Rightarrow> Token list" where
  "backfillCandidates now st doctorId date slot =
     (if imminent now slot then
        (if filter (\<lambda>t. t_source t = Source_WALKIN) (waitingOf st doctorId date) = []
           then byPriorityThenCreatedAt (waitingOf st doctorId date)
         else byPriorityThenCreatedAt
                (filter (\<lambda>t. t_source t = Source_WALKIN) (waitingOf st doctorId date)))
      else byPriorityThenCreatedAt (waitingOf st doctorId date))"

section \<open>Invariants and runs\<close>

text \<open>A run commits operations one after the other, each at its own clock value.\<close>

fun commitAll :: "(string \<Rightarrow> Date) \<Rightarrow> Store \<Rightarrow> (Date \<times> Operation) list \<Rightarrow> Store" where
  "commitAll parseDate st [] = st"
| "commitAll parseDate st (x # rest) =
     commitAll parseDate (commit parseDate (fst x) st (snd x)) rest"

text \<open>The primary keys of the token and slot tables.\<close>

definition keysUnique :: "Store \<Rightarrow> bool" where
  "keysUnique st = (distinct (map t_id (tokens st)) \<and> distinct (map s_id (slots st)))"

text \<open>(I1) No slot holds more ALLOCATED tokens than its capacity.\<close>

definition withinCapacity :: "Store \<Rightarrow> bool" where
  "withinCapacity st =
     list_all (\<lambda>sl. int (length (allocatedTokensOf st (s_id sl))) \<le> s_capacity sl) (slots st)"

text \<open>The token invariant as the spec words it: a slot id exactly on ALLOCATED tokens.\<close>

definition slotIdIffAllocated :: "Store \<Rightarrow> bool" where
  "slotIdIffAllocated st =
     list_all (\<lambda>t. (t_slotId t \<noteq> None) = (t_status t = ALLOCATED)) (tokens st)"

text \<open>The token invariant the code keeps: a slot id exactly on ALLOCATED and COMPLETED tokens.\<close>

definition slotIdIffSeated :: "Store \<Rightarrow> bool" where
  "slotIdIffSeated st =
     list_all (\<lambda>t. (t_slotId t \<noteq> None) = (t_status t = ALLOCATED \<or> t_status t = COMPLETED))
       (tokens st)"


section \<open>Auxiliary facts about the engine\<close>

lemma canAllocateHere_not_full:
  "canAllocateHere token slot toks \<Longrightarrow> int (length toks) < s_capacity slot"
  by (simp add: canAllocateHere_def canAllocateToSlot_def split: if_splits)

lemma allocateLoop_first_fit:
  "allocateLoop now st token ps =
     (case find (\<lambda>p. canAllocateHere token (fst p) (snd p)) ps of
        None \<Rightarrow> Inr (st, \<lparr>ar_success = False, ar_token = Some token, ar_slot = None,
               ar_message = ''All slots are full or capacity limits reached''\<rparr>)
      | Some p \<Rightarrow>
          Inr (updateToken st (t_id token) (assignData now (fst p)),
               \<lparr>ar_success = True,
                ar_token = findToken (updateToken st (t_id token) (assignData now (fst p))) (t_id token),
                ar_slot = Some (fst p),
                ar_message = ''Token allocated successfully''\<rparr>))"
proof (induction ps)
  case Nil
  show ?case by simp
next
  case (Cons p ps)
  show ?case
  proof (cases "canAllocateHere token (fst p) (snd p)")
    case True
    then have "int (length (snd p)) < s_capacity (fst p)"
      by (rule canAllocateHere_not_full)
    with True show ?thesis by simp
  next
    case False
    with Cons.IH show ?thesis by simp
  qed
qed

declare allocateToken.simps [simp del] allocateLoop.simps [simp del]

lemma find_Some_D: "find P xs = Some x \<Longrightarrow> x \<in> set xs \<and> P x"
  by (induction xs) (auto split: if_splits)

lemma findToken_Some_D:
  "findToken st tokenId = Some token \<Longrightarrow> token \<in> set (tokens st) \<and> t_id token = tokenId"
  unfolding findToken_def by (drule find_Some_D) simp

lemma allocateToken_outcome:
  assumes "allocateToken now st tokenId = Inr (st', r)"
  shows "(st' = st \<and> \<not> ar_success r) \<or>
         (\<exists>token p. findToken st tokenId = Some token \<and> t_status token = WAITING
            \<and> p \<in> set (availableSlots now st token)
            \<and> canAllocateHere token (fst p) (snd p)
            \<and> st' = updateToken st tokenId (assignData now (fst p))
            \<and> ar_success r \<and> ar_slot r = Some (fst p))"
proof (cases "findToken st tokenId")
  case None
  with assms show ?thesis by (simp add: allocateToken.simps)
next
  case (Some token)
  note tok = findToken_Some_D [OF Some]
  show ?thesis
  proof (cases "t_status token = WAITING")
    case False
    with assms Some show ?thesis by (simp add: allocateToken.simps)
  next
    case True
    show ?thesis
    proof (cases "find (\<lambda>p. canAllocateHere token (fst p) (snd p)) (availableSlots now st token)")
      case None
      with assms Some True show ?thesis
        by (auto simp: allocateToken.simps allocateLoop_first_fit split: if_splits)
    next
      case (Some p)
      then have p: "p \<in> set (availableSlots now st token)" "canAllocateHere token (fst p) (snd p)"
        by (auto dest: find_Some_D)
      then have "availableSlots now st token \<noteq> []" by auto
      with assms Some True \<open>findToken st tokenId = Some token\<close> tok p show ?thesis
        by (auto simp: allocateToken.simps allocateLoop_first_fit)
    qed
  qed
qed

lemma availableSlots_D:
  assumes "p \<in> set (availableSlots now st token)"
  shows "fst p \<in> set (slots st)" "s_isActive (fst p)"
    "s_doctorId (fst p) = t_doctorId token" "s_date (fst p) = t_date token"
    "\<not> hasSlotEnded now (s_endTime (fst p)) (s_date (fst p))"
    "snd p = allocatedTokensOf st (s_id (fst p))"
  using assms by (auto simp: availableSlots_def findSlotsFor_def)

lemma promoteLoop_preserves:
  assumes step: "\<And>s i s' r. P s \<Longrightarrow> allocateToken now s i = Inr (s', r) \<Longrightarrow> P s'"
  shows "P st \<Longrightarrow> promoteLoop now st ws mv = Inr (st', mv') \<Longrightarrow> P st'"
proof (induction ws arbitrary: st mv)
  case Nil
  then show ?case by simp
next
  case (Cons w ws)
  from Cons.prems(2) obtain r where
    r: "allocateToken now st (t_id w) = Inr r"
    and rest: "promoteLoop now (fst r) ws
                 (if ar_success (snd r) then mv @ [ar_token (snd r)] else mv) = Inr (st', mv')"
    by (auto split: sum.splits)
  from r have "allocateToken now st (t_id w) = Inr (fst r, snd r)" by simp
  with Cons.prems(1) have "P (fst r)" by (rule step)
  then show ?case using rest by (rule Cons.IH)
qed

lemma refill_preserves:
  assumes step: "\<And>s i s' r. P s \<Longrightarrow> allocateToken now s i = Inr (s', r) \<Longrightarrow> P s'"
    and audit: "\<And>s e. P s \<Longrightarrow> P (addAudit s e)"
    and "P st" and "refill now st token slot a b c = Inr (st', res)"
  shows "P st'"
proof (cases "hasSlotEnded now (s_endTime slot) (s_date slot)")
  case True
  with assms(3,4) show ?thesis by (auto simp: refill_def intro: audit)
next
  case False
  with assms(4) obtain r where
    r: "promoteLoop now st (waitingCandidates now st token slot) [] = Inr r"
    and st': "st' = addAudit (fst r)
       \<lparr>a_operation = a, a_tokenId = Some (t_id token),
        a_slotId = t_slotId token, a_doctorId = Some (t_doctorId token),
        a_details = [(''movedTokensCount'', JNumber (int (length (snd r))))],
        a_timestamp = now\<rparr>"
    by (auto simp: refill_def split: sum.splits)
  from r have "promoteLoop now st (waitingCandidates now st token slot) [] = Inr (fst r, snd r)"
    by simp
  with step assms(3) have "P (fst r)" by (rule promoteLoop_preserves)
  then show ?thesis unfolding st' by (rule audit)
qed

lemma commit_preserves:
  assumes step: "\<And>s i s' r. P s \<Longrightarrow> allocateToken now s i = Inr (s', r) \<Longrightarrow> P s'"
    and audit: "\<And>s e. P s \<Longrightarrow> P (addAudit s e)"
    and ins: "\<And>s t. P s \<Longrightarrow> findToken s (t_id t) = None \<Longrightarrow> t_status t = WAITING
                 \<Longrightarrow> t_slotId t = None \<Longrightarrow> P (s\<lparr>tokens := tokens s @ [t]\<rparr>)"
    and cancel: "\<And>s i. P s \<Longrightarrow> P (updateToken s i (cancelData now))"
    and noshow: "\<And>s i. P s \<Longrightarrow> P (updateToken s i noShowData)"
    and complete: "\<And>s i t. P s \<Longrightarrow> findToken s i = Some t \<Longrightarrow> t_status t = ALLOCATED
                 \<Longrightarrow> P (updateToken s i (completeData now))"
    and expire: "\<And>s d dt. P s \<Longrightarrow>
                 P (s\<lparr>tokens := map (\<lambda>t. if expires d dt t then t\<lparr>t_status := EXPIRED\<rparr> else t)
                                   (tokens s)\<rparr>)"
    and P: "P st"
  shows "P (commit parseDate now st op)"
proof (cases op)
  case (CreateToken input newId displayID)
  show ?thesis
  proof (cases "createToken parseDate now st input newId displayID")
    case (Inl e)
    with P CreateToken show ?thesis by (simp add: stateAfter_def)
  next
    case (Inr res)
    show ?thesis
    proof (cases "findTokenByKey st (i_idempotencyKey input)")
      case (Some existing)
      with Inr P CreateToken show ?thesis
        by (auto simp: createToken_def stateAfter_def)
    next
      case None
      let ?row = "newTokenRow parseDate now input newId displayID"
      from Inr None obtain r where
        fresh: "findToken st newId = None"
        and r: "allocateToken now (st\<lparr>tokens := tokens st @ [?row]\<rparr>) newId = Inr r"
        and res: "fst res = addAudit (fst r)
            \<lparr>a_operation = ''CREATE_TOKEN'', a_tokenId = Some newId,
             a_slotId = None, a_doctorId = Some (i_doctorId input),
             a_details = [(''priority'', JPriority (i_priority input)),
                          (''source'', JSource (i_source input)),
                          (''allocated'', JBool (ar_success (snd r)))],
             a_timestamp = now\<rparr>"
        by (auto simp: createToken_def split: if_splits sum.splits)
      have "P (st\<lparr>tokens := tokens st @ [?row]\<rparr>)"
        by (rule ins [OF P]) (simp_all add: newTokenRow_def fresh)
      moreover from r have
        "allocateToken now (st\<lparr>tokens := tokens st @ [?row]\<rparr>) newId = Inr (fst r, snd r)"
        by simp
      ultimately have "P (fst r)" by (rule step)
      then have "P (fst res)" unfolding res by (rule audit)
      with Inr CreateToken show ?thesis by (simp add: stateAfter_def)
    qed
  qed
next
  case (CancelToken tokenId)
  show ?thesis
  proof (cases "cancelToken now st tokenId")
    case (Inl e)
    with P CancelToken show ?thesis by (simp add: stateAfter_def)
  next
    case (Inr res)
    then obtain token where tok: "findToken st tokenId = Some token"
      by (auto simp: cancelToken_def split: option.splits)
    have P1: "P (updateToken st tokenId (cancelData now))" by (rule cancel [OF P])
    have "P (fst res)"
    proof (cases "if truthy (t_slotId token) then slotOf st token else None")
      case None
      with Inr tok have "fst res = fst (noRefill now (updateToken st tokenId (cancelData now))
          token (slotOf st token) ''CANCEL_TOKEN'' ''Token cancelled. '')"
        by (auto simp: cancelToken_def split: if_splits)
      then show ?thesis using P1 by (simp add: noRefill_def audit)
    next
      case (Some slot)
      with Inr tok have "refill now (updateToken st tokenId (cancelData now)) token slot
          ''CANCEL_TOKEN'' ''Token cancelled (slot already ended, no reallocation)''
          ''Token cancelled. '' = Inr (fst res, snd res)"
        by (auto simp: cancelToken_def split: if_splits)
      with step audit P1 show ?thesis by (rule refill_preserves)
    qed
    with Inr CancelToken show ?thesis by (simp add: stateAfter_def)
  qed
next
  case (MarkNoShow tokenId)
  show ?thesis
  proof (cases "markNoShow now st tokenId")
    case (Inl e)
    with P MarkNoShow show ?thesis by (simp add: stateAfter_def)
  next
    case (Inr res)
    then obtain token where tok: "findToken st tokenId = Some token"
      by (auto simp: markNoShow_def split: option.splits)
    have P1: "P (updateToken st tokenId noShowData)" by (rule noshow [OF P])
    have "P (fst res)"
    proof (cases "slotOf st token")
      case None
      with Inr tok have "fst res = fst (noRefill now (updateToken st tokenId noShowData)
          token None ''NO_SHOW'' ''Token marked as no-show. '')"
        by (auto simp: markNoShow_def split: if_splits)
      then show ?thesis using P1 by (simp add: noRefill_def audit)
    next
      case (Some slot)
      with Inr tok have "refill now (updateToken st tokenId noShowData) token slot
          ''NO_SHOW'' ''Token marked as no-show (slot already ended, no reallocation)''
          ''Token marked as no-show. '' = Inr (fst res, snd res)"
        by (auto simp: markNoShow_def split: if_splits)
      with step audit P1 show ?thesis by (rule refill_preserves)
    qed
    with Inr MarkNoShow show ?thesis by (simp add: stateAfter_def)
  qed
next
  case (CompleteToken tokenId)
  show ?thesis
  proof (cases "completeToken now st tokenId")
    case (Inl e)
    with P CompleteToken show ?thesis by simp
  next
    case (Inr st')
    then obtain token where tok: "findToken st tokenId = Some token"
      and alloc: "t_status token = ALLOCATED"
      and st': "st' = addAudit (updateToken st tokenId (completeData now))
                   \<lparr>a_operation = ''COMPLETE_TOKEN'', a_tokenId = Some tokenId,
                    a_slotId = t_slotId token, a_doctorId = Some (t_doctorId token),
                    a_details = [], a_timestamp = now\<rparr>"
      by (auto simp: completeToken_def split: option.splits if_splits)
    have "P (updateToken st tokenId (completeData now))"
      using P tok alloc by (rule complete)
    then have "P st'" unfolding st' by (rule audit)
    with Inr CompleteToken show ?thesis by simp
  qed
next
  case (ExpireWaiting doctorId date)
  then show ?thesis
    by (simp add: expireWaitingTokens_def audit expire [OF P])
qed

lemma map_update_absent:
  "tid \<notin> t_id ` set ts \<Longrightarrow> map (\<lambda>t. if t_id t = tid then f t else t) ts = ts"
  by (induction ts) auto

lemma updateToken_ids:
  "(\<And>t. t_id (f t) = t_id t) \<Longrightarrow> map t_id (tokens (updateToken st i f)) = map t_id (tokens st)"
  by (simp add: updateToken_def comp_def cong: map_cong)

lemma updateToken_slots [simp]: "slots (updateToken st i f) = slots st"
  by (simp add: updateToken_def)

lemma addAudit_tokens [simp]: "tokens (addAudit st e) = tokens st"
  by (simp add: addAudit_def)

lemma addAudit_slots [simp]: "slots (addAudit st e) = slots st"
  by (simp add: addAudit_def)

lemma count_after_update_le:
  "(\<And>t. Q (g t) \<Longrightarrow> Q t) \<Longrightarrow> length (filter Q (map g ts)) \<le> length (filter Q ts)"
  by (induction ts) (auto simp: le_SucI)

lemma count_after_assign:
  assumes "distinct (map t_id ts)"
    and "find (\<lambda>t. t_id t = tid) ts = Some token"
    and "\<not> Q token"
  shows "length (filter Q (map (\<lambda>t. if t_id t = tid then f t else t) ts))
           = length (filter Q ts) + (if Q (f token) then 1 else 0)"
  using assms
proof (induction ts)
  case Nil
  then show ?case by simp
next
  case (Cons t ts)
  show ?case
  proof (cases "t_id t = tid")
    case True
    with Cons.prems have "token = t" "tid \<notin> t_id ` set ts" by auto
    then show ?thesis using True Cons.prems(3) by (simp add: map_update_absent)
  next
    case False
    with Cons show ?thesis by simp
  qed
qed

lemma slot_by_id:
  "distinct (map s_id sls) \<Longrightarrow> a \<in> set sls \<Longrightarrow> b \<in> set sls \<Longrightarrow> s_id a = s_id b \<Longrightarrow> a = b"
  by (meson distinct_map inj_onD)

lemma keysUnique_map:
  assumes "\<And>t. t_id (g t) = t_id t" and "keysUnique st"
  shows "keysUnique (st\<lparr>tokens := map g (tokens st)\<rparr>)"
proof -
  have eq: "map t_id (map g (tokens st)) = map t_id (tokens st)"
    by (simp add: assms(1))
  show ?thesis using assms(2) unfolding keysUnique_def
    by (simp add: eq del: map_map)
qed

lemma withinCapacity_map:
  assumes "\<And>t. t_status (g t) = ALLOCATED \<Longrightarrow> t_status t = ALLOCATED \<and> t_slotId (g t) = t_slotId t"
    and "withinCapacity st"
  shows "withinCapacity (st\<lparr>tokens := map g (tokens st)\<rparr>)"
proof -
  have "length (filter (\<lambda>t. t_slotId t = Some sid \<and> t_status t = ALLOCATED) (map g (tokens st)))
          \<le> length (filter (\<lambda>t. t_slotId t = Some sid \<and> t_status t = ALLOCATED) (tokens st))" for sid
    by (rule count_after_update_le) (use assms(1) in auto)
  then have le: "length (allocatedTokensOf (st\<lparr>tokens := map g (tokens st)\<rparr>) sid)
          \<le> length (allocatedTokensOf st sid)" for sid
    by (simp add: allocatedTokensOf_def del: length_filter_map)
  show ?thesis
    unfolding withinCapacity_def list_all_iff
  proof
    fix x assume "x \<in> set (slots (st\<lparr>tokens := map g (tokens st)\<rparr>))"
    then have "x \<in> set (slots st)" by simp
    with assms(2) have "int (length (allocatedTokensOf st (s_id x))) \<le> s_capacity x"
      by (simp add: withinCapacity_def list_all_iff)
    with le [of "s_id x"]
    show "int (length (allocatedTokensOf (st\<lparr>tokens := map g (tokens st)\<rparr>) (s_id x)))
            \<le> s_capacity x"
      by linarith
  qed
qed

lemma capacity_inv_map:
  assumes "\<And>t. t_id (g t) = t_id t"
    and "\<And>t. t_status (g t) = ALLOCATED \<Longrightarrow> t_status t = ALLOCATED \<and> t_slotId (g t) = t_slotId t"
    and "keysUnique st \<and> withinCapacity st"
  shows "keysUnique (st\<lparr>tokens := map g (tokens st)\<rparr>)
         \<and> withinCapacity (st\<lparr>tokens := map g (tokens st)\<rparr>)"
  using assms by (blast intro: keysUnique_map withinCapacity_map)

lemma withinCapacity_assign:
  assumes keys: "keysUnique st" and cap: "withinCapacity st"
    and tok: "findToken st tokenId = Some token" and wait: "t_status token = WAITING"
    and sl: "sl \<in> set (slots st)"
    and room: "int (length (allocatedTokensOf st (s_id sl))) < s_capacity sl"
  shows "withinCapacity (updateToken st tokenId (assignData now sl))"
proof -
  have cnt: "length (allocatedTokensOf (updateToken st tokenId (assignData now sl)) sid)
          = length (allocatedTokensOf st sid) + (if sid = s_id sl then 1 else 0)" for sid
  proof -
    let ?Q = "\<lambda>t. t_slotId t = Some sid \<and> t_status t = ALLOCATED"
    have "length (filter ?Q (map (\<lambda>t. if t_id t = tokenId then assignData now sl t else t) (tokens st)))
            = length (filter ?Q (tokens st)) + (if ?Q (assignData now sl token) then 1 else 0)"
      using keys tok wait
      by (intro count_after_assign) (simp_all add: keysUnique_def findToken_def)
    then show ?thesis
      by (auto simp: allocatedTokensOf_def updateToken_def assignData_def)
  qed
  show ?thesis
    unfolding withinCapacity_def list_all_iff
  proof
    fix x assume x: "x \<in> set (slots (updateToken st tokenId (assignData now sl)))"
    then have xs: "x \<in> set (slots st)" by simp
    with cap have le: "int (length (allocatedTokensOf st (s_id x))) \<le> s_capacity x"
      by (simp add: withinCapacity_def list_all_iff)
    show "int (length (allocatedTokensOf (updateToken st tokenId (assignData now sl)) (s_id x)))
            \<le> s_capacity x"
    proof (cases "s_id x = s_id sl")
      case True
      with keys xs sl have "x = sl" by (auto simp: keysUnique_def intro: slot_by_id)
      with room show ?thesis by (simp add: cnt)
    next
      case False
      with le show ?thesis by (simp add: cnt)
    qed
  qed
qed

lemma capacity_step:
  assumes "keysUnique s \<and> withinCapacity s" and "allocateToken now s i = Inr (s', r)"
  shows "keysUnique s' \<and> withinCapacity s'"
proof -
  from allocateToken_outcome [OF assms(2)] show ?thesis
  proof
    assume "s' = s \<and> \<not> ar_success r"
    with assms(1) show ?thesis by simp
  next
    assume "\<exists>token p. findToken s i = Some token \<and> t_status token = WAITING
            \<and> p \<in> set (availableSlots now s token)
            \<and> canAllocateHere token (fst p) (snd p)
            \<and> s' = updateToken s i (assignData now (fst p))
            \<and> ar_success r \<and> ar_slot r = Some (fst p)"
    then obtain token p where tok: "findToken s i = Some token" "t_status token = WAITING"
      and p: "p \<in> set (availableSlots now s token)" "canAllocateHere token (fst p) (snd p)"
      and s': "s' = updateToken s i (assignData now (fst p))"
      by blast
    from p(2) have "int (length (snd p)) < s_capacity (fst p)"
      by (rule canAllocateHere_not_full)
    with availableSlots_D(1,6) [OF p(1)]
    have sl: "fst p \<in> set (slots s)"
      and room: "int (length (allocatedTokensOf s (s_id (fst p)))) < s_capacity (fst p)"
      by simp_all
    from assms(1) have "keysUnique s'" unfolding s' updateToken_def
      by (intro keysUnique_map) (simp_all add: assignData_def split: if_splits)
    moreover from assms(1) tok sl room have "withinCapacity s'" unfolding s'
      by (intro withinCapacity_assign) simp_all
    ultimately show ?thesis ..
  qed
qed

lemma findToken_None_iff: "findToken st i = None \<longleftrightarrow> i \<notin> t_id ` set (tokens st)"
  by (auto simp: findToken_def find_None_iff)

lemma capacity_commit:
  assumes "keysUnique st \<and> withinCapacity st"
  shows "keysUnique (commit parseDate now st op) \<and> withinCapacity (commit parseDate now st op)"
proof (rule commit_preserves [where P = "\<lambda>s. keysUnique s \<and> withinCapacity s"], goal_cases)
  case (1 s i s' r)
  then show ?case by (rule capacity_step)
next
  case (2 s e)
  then show ?case
    by (simp add: keysUnique_def withinCapacity_def allocatedTokensOf_def)
next
  case (3 s t)
  then show ?case
    by (auto simp: keysUnique_def withinCapacity_def allocatedTokensOf_def findToken_None_iff)
next
  case (4 s i)
  then show ?case unfolding updateToken_def
    by (intro capacity_inv_map) (simp_all add: cancelData_def split: if_splits)
next
  case (5 s i)
  then show ?case unfolding updateToken_def
    by (intro capacity_inv_map) (simp_all add: noShowData_def split: if_splits)
next
  case (6 s i t)
  then show ?case unfolding updateToken_def
    by (intro capacity_inv_map) (simp_all add: completeData_def split: if_splits)
next
  case (7 s d dt)
  then show ?case
    by (intro capacity_inv_map) (simp_all add: expires_def split: if_splits)
next
  case 8
  from assms show ?case .
qed

lemma capacity_commitAll:
  "keysUnique st \<and> withinCapacity st \<Longrightarrow>
   keysUnique (commitAll parseDate st ops) \<and> withinCapacity (commitAll parseDate st ops)"
  by (induction ops arbitrary: st) (simp_all add: capacity_commit)

lemma token_by_id:
  assumes "keysUnique st" and "findToken st i = Some t" and "x \<in> set (tokens st)" and "t_id x = i"
  shows "x = t"
proof -
  from assms(2) have "t \<in> set (tokens st)" "t_id t = i" by (simp_all add: findToken_Some_D)
  moreover from assms(1) have "inj_on t_id (set (tokens st))"
    by (simp add: keysUnique_def distinct_map)
  ultimately show ?thesis using assms(3,4) by (auto dest: inj_onD)
qed

lemma slotIdIffSeated_map:
  assumes "\<And>t. t \<in> set (tokens st) \<Longrightarrow>
              (t_slotId t \<noteq> None) = (t_status t = ALLOCATED \<or> t_status t = COMPLETED) \<Longrightarrow>
              (t_slotId (g t) \<noteq> None) = (t_status (g t) = ALLOCATED \<or> t_status (g t) = COMPLETED)"
    and "slotIdIffSeated st"
  shows "slotIdIffSeated (st\<lparr>tokens := map g (tokens st)\<rparr>)"
  using assms by (simp add: slotIdIffSeated_def list_all_iff)

lemma seated_commit:
  assumes "keysUnique st \<and> slotIdIffSeated st"
  shows "keysUnique (commit parseDate now st op) \<and> slotIdIffSeated (commit parseDate now st op)"
proof (rule commit_preserves [where P = "\<lambda>s. keysUnique s \<and> slotIdIffSeated s"], goal_cases)
  case (1 s i s' r)
  from allocateToken_outcome [OF 1(2)] show ?case
  proof
    assume "s' = s \<and> \<not> ar_success r"
    with 1(1) show ?thesis by simp
  next
    assume "\<exists>token p. findToken s i = Some token \<and> t_status token = WAITING
            \<and> p \<in> set (availableSlots now s token)
            \<and> canAllocateHere token (fst p) (snd p)
            \<and> s' = updateToken s i (assignData now (fst p))
            \<and> ar_success r \<and> ar_slot r = Some (fst p)"
    then obtain p where s': "s' = updateToken s i (assignData now (fst p))" by auto
    from 1(1) have "keysUnique s'" unfolding s' updateToken_def
      by (intro keysUnique_map) (simp_all add: assignData_def split: if_splits)
    moreover from 1(1) have "slotIdIffSeated s'" unfolding s' updateToken_def
      by (intro slotIdIffSeated_map) (simp_all add: assignData_def split: if_splits)
    ultimately show ?thesis ..
  qed
next
  case (2 s e)
  then show ?case by (simp add: keysUnique_def slotIdIffSeated_def)
next
  case (3 s t)
  then show ?case
    by (auto simp: keysUnique_def slotIdIffSeated_def findToken_None_iff)
next
  case (4 s i)
  then have "keysUnique (updateToken s i (cancelData now))" unfolding updateToken_def
    by (intro keysUnique_map) (simp_all add: cancelData_def split: if_splits)
  moreover from 4 have "slotIdIffSeated (updateToken s i (cancelData now))" unfolding updateToken_def
    by (intro slotIdIffSeated_map) (simp_all add: cancelData_def split: if_splits)
  ultimately show ?case ..
next
  case (5 s i)
  then have "keysUnique (updateToken s i noShowData)" unfolding updateToken_def
    by (intro keysUnique_map) (simp_all add: noShowData_def split: if_splits)
  moreover from 5 have "slotIdIffSeated (updateToken s i noShowData)" unfolding updateToken_def
    by (intro slotIdIffSeated_map) (simp_all add: noShowData_def split: if_splits)
  ultimately show ?case ..
next
  case (6 s i t)
  then have "keysUnique (updateToken s i (completeData now))" unfolding updateToken_def
    by (intro keysUnique_map) (simp_all add: completeData_def split: if_splits)
  moreover have "slotIdIffSeated (updateToken s i (completeData now))" unfolding updateToken_def
  proof (intro slotIdIffSeated_map)
    fix x assume x: "x \<in> set (tokens s)"
      and ok: "(t_slotId x \<noteq> None) = (t_status x = ALLOCATED \<or> t_status x = COMPLETED)"
    show "(t_slotId (if t_id x = i then completeData now x else x) \<noteq> None) =
          (t_status (if t_id x = i then completeData now x else x) = ALLOCATED \<or>
           t_status (if t_id x = i then completeData now x else x) = COMPLETED)"
    proof (cases "t_id x = i")
      case True
      with 6 x have "x = t" by (auto intro: token_by_id)
      with 6(3) ok True show ?thesis by (simp add: completeData_def)
    next
      case False
      with ok show ?thesis by simp
    qed
  next
    from 6 show "slotIdIffSeated s" by simp
  qed
  ultimately show ?case ..
next
  case (7 s d dt)
  then have "keysUnique (s\<lparr>tokens := map (\<lambda>t. if expires d dt t then t\<lparr>t_status := EXPIRED\<rparr> else t)
                                   (tokens s)\<rparr>)"
    by (intro keysUnique_map) (simp_all split: if_splits)
  moreover from 7 have "slotIdIffSeated (s\<lparr>tokens := map (\<lambda>t. if expires d dt t then t\<lparr>t_status := EXPIRED\<rparr> else t)
                                   (tokens s)\<rparr>)"
    by (intro slotIdIffSeated_map) (auto simp: expires_def split: if_splits)
  ultimately show ?case ..
next
  case 8
  from assms show ?case .
qed

lemma seated_commitAll:
  "keysUnique st \<and> slotIdIffSeated st \<Longrightarrow>
   keysUnique (commitAll parseDate st ops) \<and> slotIdIffSeated (commitAll parseDate st ops)"
  by (induction ops arbitrary: st) (simp_all add: seated_commit)

lemma find_map_update:
  "(\<And>t. t_id (f t) = t_id t) \<Longrightarrow>
   find (\<lambda>t. t_id t = i) (map (\<lambda>t. if t_id t = i then f t else t) ts)
     = map_option f (find (\<lambda>t. t_id t = i) ts)"
  by (induction ts) auto

lemma findToken_updateToken:
  "(\<And>t. t_id (f t) = t_id t) \<Longrightarrow>
   findToken (updateToken st i f) i = map_option f (findToken st i)"
  by (simp add: findToken_def updateToken_def find_map_update)

lemma findToken_addAudit [simp]: "findToken (addAudit st e) i = findToken st i"
  by (simp add: findToken_def)

lemma find_exists: "\<exists>x \<in> set xs. P x \<Longrightarrow> \<exists>x \<in> set xs. P x \<and> find P xs = Some x"
  by (induction xs) auto









lemma shouldPrioritizeWalkIn_iff:
  "shouldPrioritizeWalkIn now start end d =
     (\<not> hasSlotEnded now end d \<and> setHours d start - now \<le> 3600000)"
proof -
  have h: "((of_int x :: rat) / (1000 * 60 * 60) \<le> 1) = (x \<le> 3600000)" for x :: int
  proof -
    have "((of_int x :: rat) / (1000 * 60 * 60) \<le> 1) = ((of_int x :: rat) \<le> of_int 3600000)"
      by simp
    also have "\<dots> = (x \<le> 3600000)" by (simp only: of_int_le_iff)
    finally show ?thesis .
  qed
  show ?thesis unfolding shouldPrioritizeWalkIn_def h by simp
qed

lemma sort_key_Nil_iff: "sort_key f xs = [] \<longleftrightarrow> xs = []"
  by (metis length_sort length_0_conv)

lemma findWaiting_None:
  "findWaiting st doctorId date None = byPriorityThenCreatedAt (waitingOf st doctorId date)"
proof -
  have "filter (\<lambda>t. t_doctorId t = doctorId \<and> t_date t = date \<and> t_status t = WAITING) (tokens st)
      = filter (\<lambda>t. t_status t = WAITING \<and> t_doctorId t = doctorId \<and> t_date t = date) (tokens st)"
    by (rule filter_cong) auto
  then show ?thesis
    by (simp add: findWaiting_def byPriorityThenCreatedAt_def waitingOf_def waitingOrderKey_def [abs_def])
qed

lemma findWaiting_Some:
  "findWaiting st doctorId date (Some Source_WALKIN)
     = byPriorityThenCreatedAt (filter (\<lambda>t. t_source t = Source_WALKIN) (waitingOf st doctorId date))"
proof -
  have "filter (\<lambda>t. t_doctorId t = doctorId \<and> t_date t = date \<and> t_status t = WAITING
                    \<and> t_source t = Source_WALKIN) (tokens st)
      = filter (\<lambda>t. t_source t = Source_WALKIN)
          (filter (\<lambda>t. t_status t = WAITING \<and> t_doctorId t = doctorId \<and> t_date t = date)
             (tokens st))"
    unfolding filter_filter by (rule filter_cong) auto
  then show ?thesis
    by (simp add: findWaiting_def byPriorityThenCreatedAt_def waitingOf_def
          waitingOrderKey_def [abs_def] del: filter_filter)
qed

lemma waitingCandidates_eq:
  assumes "\<not> hasSlotEnded now (s_endTime slot) (s_date slot)"
  shows "waitingCandidates now st token slot
           = backfillCandidates now st (t_doctorId token) (t_date token) slot"
  using assms
  by (simp add: waitingCandidates_def backfillCandidates_def shouldPrioritizeWalkIn_iff
        imminent_def findWaiting_None findWaiting_Some byPriorityThenCreatedAt_def sort_key_Nil_iff)

lemma refill_moved:
  assumes "\<not> hasSlotEnded now (s_endTime slot) (s_date slot)"
    and "refill now st1 token slot a b c = Inr (st', res)"
  shows "\<exists>st2. promoteLoop now st1
                 (backfillCandidates now st1 (t_doctorId token) (t_date token) slot) []
               = Inr (st2, rr_movedTokens res) \<and> tokens st' = tokens st2"
  using assms
  by (auto simp: refill_def waitingCandidates_eq split: sum.splits)

section \<open>Properties\<close>

text \<open>
  C1. From a store whose token and slot keys are unique and in which no slot holds more
  ALLOCATED tokens than its capacity, every run of committed operations (createToken,
  cancelToken, markNoShow, completeToken, expireWaiting, each at any clock value and
  whether it succeeds or throws) ends in a store in which, for every slot, the number of
  tokens with status ALLOCATED and that slot's id is at most the slot's capacity.
\<close>

theorem capacity_never_exceeded:
  assumes "keysUnique st" and "withinCapacity st"
  shows "\<forall>sl \<in> set (slots (commitAll parseDate st ops)).
           int (length (filter (\<lambda>t. t_status t = ALLOCATED \<and> t_slotId t = Some (s_id sl))
                          (tokens (commitAll parseDate st ops))))
             \<le> s_capacity sl"
proof -
  from assms have "withinCapacity (commitAll parseDate st ops)"
    using capacity_commitAll [of st parseDate ops] by simp
  then show ?thesis
    by (simp add: withinCapacity_def allocatedTokensOf_def list_all_iff conj_commute)
qed

theorem capacity_never_exceeded_witness:
  "keysUnique run_store \<and> withinCapacity run_store
   \<and> map t_status (tokens (commitAll (\<lambda>_. 0) run_store run_ops)) = [CANCELLED, ALLOCATED]
   \<and> map t_slotId (tokens (commitAll (\<lambda>_. 0) run_store run_ops)) = [None, Some ''S'']
   \<and> slots (commitAll (\<lambda>_. 0) run_store run_ops) = [fx_slot ''S'' (9, 0) (10, 0) 1]
   \<and> int (length (filter (\<lambda>t. t_status t = ALLOCATED
                               \<and> t_slotId t = Some (s_id (fx_slot ''S'' (9, 0) (10, 0) 1)))
                    (tokens (commitAll (\<lambda>_. 0) run_store run_ops))))
        \<le> s_capacity (fx_slot ''S'' (9, 0) (10, 0) 1)"
proof -
  have k: "keysUnique run_store" by code_simp
  have c: "withinCapacity run_store" by code_simp
  have r: "map t_status (tokens (commitAll (\<lambda>_. 0) run_store run_ops)) = [CANCELLED, ALLOCATED]"
    by code_simp
  have i: "map t_slotId (tokens (commitAll (\<lambda>_. 0) run_store run_ops)) = [None, Some ''S'']"
    by code_simp
  have s: "slots (commitAll (\<lambda>_. 0) run_store run_ops) = [fx_slot ''S'' (9, 0) (10, 0) 1]"
    by code_simp
  from capacity_never_exceeded [OF k c, of "\<lambda>_. 0" run_ops]
  have "int (length (filter (\<lambda>t. t_status t = ALLOCATED
                               \<and> t_slotId t = Some (s_id (fx_slot ''S'' (9, 0) (10, 0) 1)))
                    (tokens (commitAll (\<lambda>_. 0) run_store run_ops))))
        \<le> s_capacity (fx_slot ''S'' (9, 0) (10, 0) 1)"
    unfolding s by simp
  with k c r i s show ?thesis by (intro conjI)
qed

text \<open>
  C2. The claim is that an EMERGENCY token arriving when every candidate slot is full
  displaces an occupant. In scenario S1, at 08:20, \<open>createToken\<close> for the EMERGENCY
  token \<open>t3\<close> reports no allocation: \<open>t3\<close> stays WAITING without a slot, \<open>t1\<close> and \<open>t2\<close>
  stay ALLOCATED in \<open>S\<close>, and the only audit row is CREATE_TOKEN.
\<close>

theorem S1_emergency_not_allocated:
  "(case createToken (\<lambda>_. 0) 30000000 S1_store
           (fx_input ''t3'' EMERGENCY Source_WALKIN ''e'') ''t3'' ''T-3'' of
      Inl e \<Rightarrow> False
    | Inr r \<Rightarrow>
        \<not> ar_success (snd r)
        \<and> map t_id (tokens (fst r)) = [''t1'', ''t2'', ''t3'']
        \<and> map t_status (tokens (fst r)) = [ALLOCATED, ALLOCATED, WAITING]
        \<and> map t_slotId (tokens (fst r)) = [Some ''S'', Some ''S'', None]
        \<and> map a_operation (auditLog (fst r)) = [''CREATE_TOKEN''])"
  by code_simp

text \<open>
  C3. The claim is that \<open>canAllocateToSlot\<close> is true for EMERGENCY at every count. The
  code tests the full slot first: at capacity 2 with 2 allocated it answers false for
  EMERGENCY.
\<close>

theorem canAllocateToSlot_emergency_full_refused:
  "canAllocateToSlot EMERGENCY 0 0 2 2 None None = False"
  by (simp add: canAllocateToSlot_def)

text \<open>
  C4. The claim is that cancelToken fails on every terminal token. On a NO_SHOW token and
  on an EXPIRED token cancelToken succeeds and leaves the token CANCELLED, although the
  transition table of \<open>isValidStatusTransition\<close> allows neither transition.
\<close>

theorem cancelToken_accepts_terminal:
  "(case cancelToken 30000000 terminal_store ''t1'' of
      Inl e \<Rightarrow> False
    | Inr r \<Rightarrow> rr_success (snd r) \<and> map t_status (tokens (fst r)) = [CANCELLED, EXPIRED])
   \<and> (case cancelToken 30000000 terminal_store ''t2'' of
      Inl e \<Rightarrow> False
    | Inr r \<Rightarrow> rr_success (snd r) \<and> map t_status (tokens (fst r)) = [NO_SHOW, CANCELLED])
   \<and> \<not> isValidStatusTransition NO_SHOW CANCELLED
   \<and> \<not> isValidStatusTransition EXPIRED CANCELLED"
  by code_simp

text \<open>
  C5, as claimed: a token has a slot id exactly when it is ALLOCATED, after every
  operation, and completeToken leaves the token without a slot id. In scenario S1, at
  09:30, completeToken succeeds on \<open>t1\<close>; afterwards \<open>t1\<close> is COMPLETED and still carries the
  id of slot \<open>S\<close>, so the equivalence, which held before, no longer holds.
\<close>

theorem completeToken_keeps_slotId_counterexample:
  "slotIdIffAllocated S1_store
   \<and> completeToken 34200000 S1_store ''t1'' \<noteq> Inl INVALID_STATUS
   \<and> completeToken 34200000 S1_store ''t1'' \<noteq> Inl TOKEN_NOT_FOUND
   \<and> map t_status (tokens (commit (\<lambda>_. 0) 34200000 S1_store (CompleteToken ''t1'')))
        = [COMPLETED, ALLOCATED]
   \<and> map t_slotId (tokens (commit (\<lambda>_. 0) 34200000 S1_store (CompleteToken ''t1'')))
        = [Some ''S'', Some ''S'']
   \<and> \<not> slotIdIffAllocated (commit (\<lambda>_. 0) 34200000 S1_store (CompleteToken ''t1''))"
  by code_simp

text \<open>
  C5, amended. From a store with unique keys in which a token has a slot id exactly when
  it is ALLOCATED or COMPLETED, every run of committed operations ends in a store with
  the same property; and a successful completeToken finds the token ALLOCATED with a
  slot id and leaves it COMPLETED with \<open>completedAt\<close> set and every other field, the
  slot id included, as it was.
\<close>

theorem slotId_iff_allocated_or_completed:
  assumes "keysUnique st" and "slotIdIffSeated st"
  shows "(\<forall>t \<in> set (tokens (commitAll parseDate st ops)).
            (t_slotId t \<noteq> None) = (t_status t = ALLOCATED \<or> t_status t = COMPLETED))
         \<and> (\<forall>now i st'. completeToken now st i = Inr st' \<longrightarrow>
               (\<exists>t. findToken st i = Some t \<and> t_status t = ALLOCATED \<and> t_slotId t \<noteq> None
                  \<and> findToken st' i
                       = Some (t\<lparr>t_status := COMPLETED, t_completedAt := Some now\<rparr>)))"
proof (intro conjI allI impI)
  from assms have "slotIdIffSeated (commitAll parseDate st ops)"
    using seated_commitAll [of st parseDate ops] by simp
  then show "\<forall>t \<in> set (tokens (commitAll parseDate st ops)).
            (t_slotId t \<noteq> None) = (t_status t = ALLOCATED \<or> t_status t = COMPLETED)"
    by (simp add: slotIdIffSeated_def list_all_iff)
next
  fix now i st'
  assume c: "completeToken now st i = Inr st'"
  then obtain t where t: "findToken st i = Some t" "t_status t = ALLOCATED"
    and st': "st' = addAudit (updateToken st i (completeData now))
                   \<lparr>a_operation = ''COMPLETE_TOKEN'', a_tokenId = Some i,
                    a_slotId = t_slotId t, a_doctorId = Some (t_doctorId t),
                    a_details = [], a_timestamp = now\<rparr>"
    by (auto simp: completeToken_def split: option.splits if_splits)
  from t(1) have "t \<in> set (tokens st)" by (simp add: findToken_Some_D)
  with assms(2) t(2) have "t_slotId t \<noteq> None"
    by (auto simp: slotIdIffSeated_def list_all_iff)
  moreover have "findToken st' i = Some (t\<lparr>t_status := COMPLETED, t_completedAt := Some now\<rparr>)"
    unfolding st' by (simp add: findToken_updateToken completeData_def t(1))
  ultimately show "\<exists>t. findToken st i = Some t \<and> t_status t = ALLOCATED \<and> t_slotId t \<noteq> None
                  \<and> findToken st' i
                       = Some (t\<lparr>t_status := COMPLETED, t_completedAt := Some now\<rparr>)"
    using t by blast
qed

theorem slotId_iff_allocated_or_completed_witness:
  "keysUnique S1_store \<and> slotIdIffSeated S1_store
   \<and> list_all (\<lambda>t. (t_slotId t \<noteq> None) = (t_status t = ALLOCATED \<or> t_status t = COMPLETED))
        (tokens (commitAll (\<lambda>_. 0) S1_store [(34200000, CompleteToken ''t1'')]))
   \<and> (\<exists>st' t. completeToken 34200000 S1_store ''t1'' = Inr st'
         \<and> findToken S1_store ''t1'' = Some t \<and> t_status t = ALLOCATED \<and> t_slotId t = Some ''S''
         \<and> findToken st' ''t1''
              = Some (t\<lparr>t_status := COMPLETED, t_completedAt := Some 34200000\<rparr>))"
proof -
  let ?t = "fx_token ''t1'' WALKIN Source_WALKIN ALLOCATED (Some ''S'') 1"
  have k: "keysUnique S1_store" by code_simp
  have i: "slotIdIffSeated S1_store" by code_simp
  have f: "findToken S1_store ''t1'' = Some ?t" by code_simp
  have a: "t_status ?t = ALLOCATED" "t_slotId ?t = Some ''S''" by (simp_all add: fx_token_def)
  from f a obtain st' where e: "completeToken 34200000 S1_store ''t1'' = Inr st'"
    by (auto simp: completeToken_def)
  note t = slotId_iff_allocated_or_completed [OF k i, of "\<lambda>_. 0" "[(34200000, CompleteToken ''t1'')]"]
  from t have l: "list_all (\<lambda>t. (t_slotId t \<noteq> None) = (t_status t = ALLOCATED \<or> t_status t = COMPLETED))
        (tokens (commitAll (\<lambda>_. 0) S1_store [(34200000, CompleteToken ''t1'')]))"
    by (simp add: list_all_iff)
  from t e f have "findToken st' ''t1''
              = Some (?t\<lparr>t_status := COMPLETED, t_completedAt := Some 34200000\<rparr>)"
    by fastforce
  with e f a have x: "\<exists>st' t. completeToken 34200000 S1_store ''t1'' = Inr st'
         \<and> findToken S1_store ''t1'' = Some t \<and> t_status t = ALLOCATED \<and> t_slotId t = Some ''S''
         \<and> findToken st' ''t1''
              = Some (t\<lparr>t_status := COMPLETED, t_completedAt := Some 34200000\<rparr>)"
    by - (rule exI [of _ st'], rule exI [of _ ?t], simp)
  show ?thesis by (intro conjI k i l x)
qed

text \<open>
  C6. If some stored token has the idempotency key of the input, createToken succeeds,
  returns a stored token of that key (keys being unique, the token of that key) together
  with that token's current slot, and returns the store it was given: no row is added or
  changed and no audit row is written. Nothing else of the input is looked at.
\<close>

theorem createToken_idempotent:
  assumes "\<exists>t \<in> set (tokens st). t_idempotencyKey t = i_idempotencyKey input"
  shows "\<exists>t \<in> set (tokens st).
           t_idempotencyKey t = i_idempotencyKey input
           \<and> createToken parseDate now st input newId displayID
               = Inr (st, \<lparr>ar_success = True, ar_token = Some t, ar_slot = slotOf st t,
                          ar_message = ''Token already exists (idempotent request)''\<rparr>)
           \<and> commit parseDate now st (CreateToken input newId displayID) = st"
proof -
  from find_exists [OF assms] obtain t where
    t: "t \<in> set (tokens st)" "t_idempotencyKey t = i_idempotencyKey input"
       "findTokenByKey st (i_idempotencyKey input) = Some t"
    unfolding findTokenByKey_def by blast
  then show ?thesis
    by (intro bexI [of _ t]) (simp_all add: createToken_def stateAfter_def)
qed

theorem createToken_idempotent_witness:
  "(\<exists>t \<in> set (tokens S1_store).
      t_idempotencyKey t = i_idempotencyKey (fx_input ''t1'' EMERGENCY Source_ONLINE ''other''))
   \<and> (\<exists>t \<in> set (tokens S1_store).
           t_idempotencyKey t = i_idempotencyKey (fx_input ''t1'' EMERGENCY Source_ONLINE ''other'')
           \<and> createToken (\<lambda>_. 0) 30000000 S1_store
                (fx_input ''t1'' EMERGENCY Source_ONLINE ''other'') ''t9'' ''T-9''
               = Inr (S1_store, \<lparr>ar_success = True, ar_token = Some t, ar_slot = slotOf S1_store t,
                          ar_message = ''Token already exists (idempotent request)''\<rparr>)
           \<and> commit (\<lambda>_. 0) 30000000 S1_store
                (CreateToken (fx_input ''t1'' EMERGENCY Source_ONLINE ''other'') ''t9'' ''T-9'')
               = S1_store)"
proof -
  have h: "\<exists>t \<in> set (tokens S1_store).
      t_idempotencyKey t = i_idempotencyKey (fx_input ''t1'' EMERGENCY Source_ONLINE ''other'')"
    by (simp add: S1_store_def fx_store_def fx_token_def fx_input_def)
  from createToken_idempotent [OF h] h show ?thesis by blast
qed

text \<open>
  C7. Let cancelToken or markNoShow run on a token whose slot has not ended. The list of
  tokens the reallocation loop runs over, read from the store as it is after the
  token's own update, is the candidate list of spec section 4.5 for the token's doctor
  and date: when the slot starts at most one hour from now or has started, the WAITING
  tokens with source WALKIN, or all WAITING tokens if there is no such token; when the
  slot is not imminent, all WAITING tokens; in each case ordered by priority ascending,
  then \<open>createdAt\<close> ascending. The tokens the operation reports as moved are those the
  loop seats from that list.
\<close>

theorem backfill_candidates:
  assumes "findToken st tokenId = Some token"
    and "slotOf st token = Some slot"
    and "\<not> hasSlotEnded now (s_endTime slot) (s_date slot)"
  shows "(\<forall>s. waitingCandidates now s token slot
                = backfillCandidates now s (t_doctorId token) (t_date token) slot)
     \<and> (truthy (t_slotId token) \<longrightarrow>
            (\<forall>st' res. cancelToken now st tokenId = Inr (st', res) \<longrightarrow>
               (\<exists>st2. promoteLoop now (updateToken st tokenId (cancelData now))
                        (backfillCandidates now (updateToken st tokenId (cancelData now))
                           (t_doctorId token) (t_date token) slot) []
                      = Inr (st2, rr_movedTokens res) \<and> tokens st' = tokens st2)))
     \<and> (\<forall>st' res. markNoShow now st tokenId = Inr (st', res) \<longrightarrow>
               (\<exists>st2. promoteLoop now (updateToken st tokenId noShowData)
                        (backfillCandidates now (updateToken st tokenId noShowData)
                           (t_doctorId token) (t_date token) slot) []
                      = Inr (st2, rr_movedTokens res) \<and> tokens st' = tokens st2))
     \<and> (\<forall>s. sorted (map (\<lambda>t. (getPriorityOrder (t_priority t), t_createdAt t))
                    (backfillCandidates now s (t_doctorId token) (t_date token) slot)))"
proof (intro conjI impI allI)
  fix s
  from assms(3) show "waitingCandidates now s token slot
                = backfillCandidates now s (t_doctorId token) (t_date token) slot"
    by (rule waitingCandidates_eq)
next
  fix st' res
  assume "truthy (t_slotId token)" and "cancelToken now st tokenId = Inr (st', res)"
  with assms(1,2) have "refill now (updateToken st tokenId (cancelData now)) token slot
          ''CANCEL_TOKEN'' ''Token cancelled (slot already ended, no reallocation)''
          ''Token cancelled. '' = Inr (st', res)"
    by (simp add: cancelToken_def split: if_splits)
  with assms(3) show "\<exists>st2. promoteLoop now (updateToken st tokenId (cancelData now))
                        (backfillCandidates now (updateToken st tokenId (cancelData now))
                           (t_doctorId token) (t_date token) slot) []
                      = Inr (st2, rr_movedTokens res) \<and> tokens st' = tokens st2"
    by (rule refill_moved)
next
  fix st' res
  assume "markNoShow now st tokenId = Inr (st', res)"
  with assms(1,2) have "refill now (updateToken st tokenId noShowData) token slot
          ''NO_SHOW'' ''Token marked as no-show (slot already ended, no reallocation)''
          ''Token marked as no-show. '' = Inr (st', res)"
    by (simp add: markNoShow_def split: if_splits)
  with assms(3) show "\<exists>st2. promoteLoop now (updateToken st tokenId noShowData)
                        (backfillCandidates now (updateToken st tokenId noShowData)
                           (t_doctorId token) (t_date token) slot) []
                      = Inr (st2, rr_movedTokens res) \<and> tokens st' = tokens st2"
    by (rule refill_moved)
next
  fix s
  show "sorted (map (\<lambda>t. (getPriorityOrder (t_priority t), t_createdAt t))
                    (backfillCandidates now s (t_doctorId token) (t_date token) slot))"
    by (simp add: backfillCandidates_def byPriorityThenCreatedAt_def)
qed

theorem backfill_candidates_witness:
  "findToken S3_store ''paid1'' = Some (fx_token ''paid1'' PAID Source_ONLINE ALLOCATED (Some ''S'') 1)
   \<and> slotOf S3_store (fx_token ''paid1'' PAID Source_ONLINE ALLOCATED (Some ''S'') 1)
       = Some (fx_slot ''S'' (10, 0) (11, 0) 2)
   \<and> \<not> hasSlotEnded 34200000 (s_endTime (fx_slot ''S'' (10, 0) (11, 0) 2))
          (s_date (fx_slot ''S'' (10, 0) (11, 0) 2))
   \<and> truthy (t_slotId (fx_token ''paid1'' PAID Source_ONLINE ALLOCATED (Some ''S'') 1))
   \<and> map t_id (backfillCandidates 34200000
                  (updateToken S3_store ''paid1'' (cancelData 34200000)) ''d1'' 0
                  (fx_slot ''S'' (10, 0) (11, 0) 2)) = [''walkin1'']
   \<and> map t_id (backfillCandidates 30000000
                  (updateToken S3_store ''paid1'' (cancelData 30000000)) ''d1'' 0
                  (fx_slot ''S'' (10, 0) (11, 0) 2)) = [''online2'', ''walkin1'']
   \<and> (\<exists>st' res. cancelToken 34200000 S3_store ''paid1'' = Inr (st', res)
          \<and> map (map_option t_id) (rr_movedTokens res) = [Some ''walkin1'']
          \<and> (\<exists>st2. promoteLoop 34200000 (updateToken S3_store ''paid1'' (cancelData 34200000))
                        (backfillCandidates 34200000
                           (updateToken S3_store ''paid1'' (cancelData 34200000)) ''d1'' 0
                           (fx_slot ''S'' (10, 0) (11, 0) 2)) []
                      = Inr (st2, rr_movedTokens res) \<and> tokens st' = tokens st2))
   \<and> (\<exists>st' res. markNoShow 34200000 S3_store ''paid1'' = Inr (st', res)
          \<and> map (map_option t_id) (rr_movedTokens res) = [Some ''walkin1'']
          \<and> (\<exists>st2. promoteLoop 34200000 (updateToken S3_store ''paid1'' noShowData)
                        (backfillCandidates 34200000
                           (updateToken S3_store ''paid1'' noShowData) ''d1'' 0
                           (fx_slot ''S'' (10, 0) (11, 0) 2)) []
                      = Inr (st2, rr_movedTokens res) \<and> tokens st' = tokens st2))"
proof -
  let ?tok = "fx_token ''paid1'' PAID Source_ONLINE ALLOCATED (Some ''S'') 1"
  let ?sl = "fx_slot ''S'' (10, 0) (11, 0) 2"
  have h1: "findToken S3_store ''paid1'' = Some ?tok" by code_simp
  have h2: "slotOf S3_store ?tok = Some ?sl" by code_simp
  have h3: "\<not> hasSlotEnded 34200000 (s_endTime ?sl) (s_date ?sl)" by code_simp
  have h4: "truthy (t_slotId ?tok)" by code_simp
  have d: "t_doctorId ?tok = ''d1''" "t_date ?tok = 0" by (simp_all add: fx_token_def)
  have b1: "map t_id (backfillCandidates 34200000
                  (updateToken S3_store ''paid1'' (cancelData 34200000)) ''d1'' 0 ?sl)
              = [''walkin1'']" by code_simp
  have b2: "map t_id (backfillCandidates 30000000
                  (updateToken S3_store ''paid1'' (cancelData 30000000)) ''d1'' 0 ?sl)
              = [''online2'', ''walkin1'']" by code_simp
  have "case cancelToken 34200000 S3_store ''paid1'' of
          Inl e \<Rightarrow> False
        | Inr r \<Rightarrow> map (map_option t_id) (rr_movedTokens (snd r)) = [Some ''walkin1'']"
    by code_simp
  then obtain st' res where c: "cancelToken 34200000 S3_store ''paid1'' = Inr (st', res)"
    "map (map_option t_id) (rr_movedTokens res) = [Some ''walkin1'']"
    by (auto split: sum.splits)
  have "case markNoShow 34200000 S3_store ''paid1'' of
          Inl e \<Rightarrow> False
        | Inr r \<Rightarrow> map (map_option t_id) (rr_movedTokens (snd r)) = [Some ''walkin1'']"
    by code_simp
  then obtain st'' res' where n: "markNoShow 34200000 S3_store ''paid1'' = Inr (st'', res')"
    "map (map_option t_id) (rr_movedTokens res') = [Some ''walkin1'']"
    by (auto split: sum.splits)
  note t = backfill_candidates [OF h1 h2 h3, unfolded d]
  from t h4 c have "\<exists>st2. promoteLoop 34200000 (updateToken S3_store ''paid1'' (cancelData 34200000))
                        (backfillCandidates 34200000
                           (updateToken S3_store ''paid1'' (cancelData 34200000)) ''d1'' 0 ?sl) []
                      = Inr (st2, rr_movedTokens res) \<and> tokens st' = tokens st2"
    by blast
  with c have C: "\<exists>st' res. cancelToken 34200000 S3_store ''paid1'' = Inr (st', res)
          \<and> map (map_option t_id) (rr_movedTokens res) = [Some ''walkin1'']
          \<and> (\<exists>st2. promoteLoop 34200000 (updateToken S3_store ''paid1'' (cancelData 34200000))
                        (backfillCandidates 34200000
                           (updateToken S3_store ''paid1'' (cancelData 34200000)) ''d1'' 0 ?sl) []
                      = Inr (st2, rr_movedTokens res) \<and> tokens st' = tokens st2)"
    by - (rule exI [of _ st'], rule exI [of _ res], simp)
  from t n have "\<exists>st2. promoteLoop 34200000 (updateToken S3_store ''paid1'' noShowData)
                        (backfillCandidates 34200000
                           (updateToken S3_store ''paid1'' noShowData) ''d1'' 0 ?sl) []
                      = Inr (st2, rr_movedTokens res') \<and> tokens st'' = tokens st2"
    by blast
  with n have N: "\<exists>st' res. markNoShow 34200000 S3_store ''paid1'' = Inr (st', res)
          \<and> map (map_option t_id) (rr_movedTokens res) = [Some ''walkin1'']
          \<and> (\<exists>st2. promoteLoop 34200000 (updateToken S3_store ''paid1'' noShowData)
                        (backfillCandidates 34200000
                           (updateToken S3_store ''paid1'' noShowData) ''d1'' 0 ?sl) []
                      = Inr (st2, rr_movedTokens res) \<and> tokens st' = tokens st2)"
    by - (rule exI [of _ st''], rule exI [of _ res'], simp)
  show ?thesis by (intro conjI h1 h2 h3 h4 b1 b2 C N)
qed




text \<open>
  C9. expireWaitingTokens keeps the token table's length and order; the token at each
  position becomes the same token with status EXPIRED when it was WAITING for the given
  doctor and date, and is unchanged otherwise; the returned count is the number of
  tokens that were WAITING for that doctor and date; slots and doctors are unchanged and
  exactly one audit row, EXPIRE_TOKENS, is appended. No token is allocated.
\<close>

theorem expireWaitingTokens_effect:
  "length (tokens (fst (expireWaitingTokens parseDate now st doctorId date))) = length (tokens st)
   \<and> (\<forall>k < length (tokens st).
         tokens (fst (expireWaitingTokens parseDate now st doctorId date)) ! k
           = (if t_status (tokens st ! k) = WAITING \<and> t_doctorId (tokens st ! k) = doctorId
                 \<and> t_date (tokens st ! k) = parseDate date
              then (tokens st ! k)\<lparr>t_status := EXPIRED\<rparr> else tokens st ! k))
   \<and> snd (expireWaitingTokens parseDate now st doctorId date)
       = length (filter (\<lambda>t. t_status t = WAITING \<and> t_doctorId t = doctorId
                              \<and> t_date t = parseDate date) (tokens st))
   \<and> slots (fst (expireWaitingTokens parseDate now st doctorId date)) = slots st
   \<and> doctors (fst (expireWaitingTokens parseDate now st doctorId date)) = doctors st
   \<and> map a_operation (auditLog (fst (expireWaitingTokens parseDate now st doctorId date)))
       = map a_operation (auditLog st) @ [''EXPIRE_TOKENS'']"
proof -
  have e: "expires doctorId (parseDate date) = (\<lambda>t. t_status t = WAITING \<and> t_doctorId t = doctorId
                              \<and> t_date t = parseDate date)"
    by (auto simp: expires_def fun_eq_iff)
  show ?thesis
    by (simp add: expireWaitingTokens_def addAudit_def e)
qed

theorem expireWaitingTokens_effect_witness:
  "length (tokens expire_store) = 5
   \<and> map t_status (tokens (fst (expireWaitingTokens (\<lambda>_. 0) 64800000 expire_store ''d1'' ''01-01-1970'')))
       = [EXPIRED, ALLOCATED, WAITING, WAITING, CANCELLED]
   \<and> snd (expireWaitingTokens (\<lambda>_. 0) 64800000 expire_store ''d1'' ''01-01-1970'') = 1
   \<and> tokens (fst (expireWaitingTokens (\<lambda>_. 0) 64800000 expire_store ''d1'' ''01-01-1970'')) ! 0
       = (tokens expire_store ! 0)\<lparr>t_status := EXPIRED\<rparr>
   \<and> tokens (fst (expireWaitingTokens (\<lambda>_. 0) 64800000 expire_store ''d1'' ''01-01-1970'')) ! 2
       = tokens expire_store ! 2"
proof -
  have l: "length (tokens expire_store) = 5" by code_simp
  have s: "map t_status (tokens (fst (expireWaitingTokens (\<lambda>_. 0) 64800000 expire_store ''d1'' ''01-01-1970'')))
       = [EXPIRED, ALLOCATED, WAITING, WAITING, CANCELLED]" by code_simp
  have n: "snd (expireWaitingTokens (\<lambda>_. 0) 64800000 expire_store ''d1'' ''01-01-1970'') = 1"
    by code_simp
  have c0: "t_status (tokens expire_store ! 0) = WAITING \<and> t_doctorId (tokens expire_store ! 0) = ''d1''
            \<and> t_date (tokens expire_store ! 0) = 0" by code_simp
  have c2: "t_doctorId (tokens expire_store ! 2) \<noteq> ''d1''" by code_simp
  note t = expireWaitingTokens_effect [of "\<lambda>_. 0" 64800000 expire_store "''d1''" "''01-01-1970''"]
  from t l c0 have a: "tokens (fst (expireWaitingTokens (\<lambda>_. 0) 64800000 expire_store ''d1'' ''01-01-1970'')) ! 0
       = (tokens expire_store ! 0)\<lparr>t_status := EXPIRED\<rparr>" by simp
  from t l c2 have b: "tokens (fst (expireWaitingTokens (\<lambda>_. 0) 64800000 expire_store ''d1'' ''01-01-1970'')) ! 2
       = tokens expire_store ! 2" by simp
  show ?thesis by (intro conjI l s n a b)
qed

text \<open>
  C10. For an incoming priority of ONLINE or WALKIN, \<open>canAllocateToSlot\<close> is true exactly
  when the total allocated count is strictly below the capacity, whatever the two
  sub-caps and the two sub-counts are.
\<close>

theorem canAllocateToSlot_regular_iff_below_capacity:
  "canAllocateToSlot ONLINE pc fc tc cap pcap fcap = (tc < cap)
   \<and> canAllocateToSlot WALKIN pc fc tc cap pcap fcap = (tc < cap)"
  by (simp add: canAllocateToSlot_def)

end
